theory Spec2Isabelle
  imports Main "HOL-Library.Word" "HOL-Library.Signed_Division" "HOL-Library.Multiset"
begin

unbundle bit_operations_syntax

section \<open>Data model of the blocks-store querier\<close>

text \<open>
  The querier of \<^verbatim>\<open>blocks_store_queryable.go\<close> works on block descriptors of the
  bucket index. Of a descriptor the code under study reads the block ID (through
  \<^verbatim>\<open>GetULIDs\<close>) and the compactor shard ID, a string that is empty when the block
  was not produced by the split-and-merge compactor.
\<close>

type_synonym ulid = "128 word"
type_synonym uint64 = "64 word"

record Block =
  ID :: ulid
  CompactorShardID :: string

text \<open>
  Errors of the read path. \<open>External\<close> is an error value handed back by a collaborator
  (block finder, replica selector, query function) and returned as it is;
  \<open>Wrapped\<close> is \<^verbatim>\<open>errors.Wrap\<close> of such a value; \<open>LimitError\<close> is
  \<^verbatim>\<open>validation.LimitError\<close> of a message of the query limiter;
  \<open>MaxChunksLimitError\<close> is \<^verbatim>\<open>validation.LimitError\<close> of the message
  \<^verbatim>\<open>maxChunksPerQueryLimitMsgFormat\<close>, which names the limit; \<open>StoreConsistencyCheckFailed\<close> is the error built by
  \<^verbatim>\<open>newStoreConsistencyCheckFailedError\<close> from the blocks not queried;
  \<open>ContextCanceled\<close> is \<^verbatim>\<open>gCtx.Err()\<close>; \<open>Panic\<close> is a Go run-time panic, which
  unwinds through every caller.
\<close>

datatype panic = DivideByZero | IndexOutOfRange

datatype 'e qerror =
    External 'e
  | Wrapped string 'e
  | LimitError string
  | MaxChunksLimitError int
  | StoreConsistencyCheckFailed "ulid list"
  | ContextCanceled
  | Panic panic

section \<open>Shard filter\<close>

text \<open>
  \<^verbatim>\<open>canBlockWithCompactorShardIndexContainQueryShard\<close>: all four arguments are
  \<^verbatim>\<open>uint64\<close>. Go evaluates \<^verbatim>\<open>&&\<close> left to right and \<^verbatim>\<open>%\<close> panics on a zero
  divisor, so each remainder is guarded by the comparison before it and by the panic.
  The result is the pair (result, divisibleShardCounts).
\<close>

definition canBlockWithCompactorShardIndexContainQueryShard ::
  "uint64 \<Rightarrow> uint64 \<Rightarrow> uint64 \<Rightarrow> uint64 \<Rightarrow> panic + (bool \<times> bool)" where
  "canBlockWithCompactorShardIndexContainQueryShard queryShardIndex queryShardCount
      compactorShardIndex compactorShardCount =
    (if compactorShardCount \<le> queryShardCount \<and> compactorShardCount = 0
       then Inl DivideByZero
     else if compactorShardCount \<le> queryShardCount
             \<and> queryShardCount mod compactorShardCount = 0
       then Inr (compactorShardIndex = queryShardIndex mod compactorShardCount, True)
     else if queryShardCount \<le> compactorShardCount \<and> queryShardCount = 0
       then Inl DivideByZero
     else if queryShardCount \<le> compactorShardCount
             \<and> compactorShardCount mod queryShardCount = 0
       then Inr (queryShardIndex = compactorShardIndex mod queryShardCount, True)
     else Inr (True, False))"

text \<open>
  \<^verbatim>\<open>sharding.ParseShardIDLabelValue\<close> is not among the sources at hand, so the
  parser is a parameter: \<open>None\<close> when it returns an error, \<open>Some (index, count)\<close>
  otherwise.
\<close>

type_synonym shard_parser = "string \<Rightarrow> (uint64 \<times> uint64) option"

text \<open>
  The loop of \<^verbatim>\<open>filterBlocksByShard\<close>, with its loop variables \<open>blocks\<close>, \<open>ix\<close> and
  \<open>incompatibleBlocks\<close> (a Go \<^verbatim>\<open>int\<close>, which counts at most \<open>length blocks\<close> and so
  never overflows). Removing the block at \<open>ix\<close> is
  \<^verbatim>\<open>append(blocks[:ix], blocks[ix+1:]...)\<close>; the index then stays where it is.
\<close>

function filterBlocksByShard_loop ::
  "shard_parser \<Rightarrow> uint64 \<Rightarrow> uint64 \<Rightarrow> Block list \<Rightarrow> nat \<Rightarrow> int
     \<Rightarrow> panic + (Block list \<times> int)" where
  "filterBlocksByShard_loop parse queryShardIndex queryShardCount blocks ix incompatibleBlocks =
    (if ix < length blocks then
       (if CompactorShardID (blocks ! ix) = [] then
          filterBlocksByShard_loop parse queryShardIndex queryShardCount blocks (ix + 1)
            incompatibleBlocks
        else
          (case parse (CompactorShardID (blocks ! ix)) of
             None \<Rightarrow>
               filterBlocksByShard_loop parse queryShardIndex queryShardCount blocks (ix + 1)
                 incompatibleBlocks
           | Some (compactorShardIndex, compactorShardCount) \<Rightarrow>
               (case canBlockWithCompactorShardIndexContainQueryShard queryShardIndex
                       queryShardCount compactorShardIndex compactorShardCount of
                  Inl p \<Rightarrow> Inl p
                | Inr (res, divisible) \<Rightarrow>
                    (if res then
                       filterBlocksByShard_loop parse queryShardIndex queryShardCount blocks
                         (ix + 1)
                         (if \<not> divisible then incompatibleBlocks + 1 else incompatibleBlocks)
                     else
                       filterBlocksByShard_loop parse queryShardIndex queryShardCount
                         (take ix blocks @ drop (ix + 1) blocks) ix
                         (if \<not> divisible then incompatibleBlocks + 1
                          else incompatibleBlocks)))))
     else Inr (blocks, incompatibleBlocks))"
  by pat_completeness auto
termination
  by (relation "measure (\<lambda>(parse, qi, qc, blocks, ix, n). length blocks - ix)") auto

definition filterBlocksByShard ::
  "shard_parser \<Rightarrow> Block list \<Rightarrow> uint64 \<Rightarrow> uint64 \<Rightarrow> panic + (Block list \<times> int)" where
  "filterBlocksByShard parse blocks queryShardIndex queryShardCount =
     filterBlocksByShard_loop parse queryShardIndex queryShardCount blocks 0 0"

text \<open>
  What one iteration of the loop decides for a block: \<open>(True, True)\<close> for a block that
  is skipped before the shard comparison (no shard ID, or one that does not parse),
  and otherwise the verdict of the comparison.
\<close>

definition blockVerdict :: "shard_parser \<Rightarrow> uint64 \<Rightarrow> uint64 \<Rightarrow> Block \<Rightarrow> panic + (bool \<times> bool)" where
  "blockVerdict parse queryShardIndex queryShardCount b =
     (if CompactorShardID b = [] then Inr (True, True)
      else case parse (CompactorShardID b) of
             None \<Rightarrow> Inr (True, True)
           | Some (compactorShardIndex, compactorShardCount) \<Rightarrow>
               canBlockWithCompactorShardIndexContainQueryShard queryShardIndex
                 queryShardCount compactorShardIndex compactorShardCount)"

subsection \<open>The keep rule as the specification words it\<close>

text \<open>
  The rule of the specification for a block whose shard ID reads \<open>ci\<close> of \<open>cc\<close>, under a
  query shard \<open>qi\<close> of \<open>qc\<close>; these two definitions follow the specification, not the
  code, and the theorems below compare the code with them.
\<close>

definition spec_incompatible :: "uint64 \<Rightarrow> uint64 \<Rightarrow> bool" where
  "spec_incompatible qc cc = (qc mod cc \<noteq> 0 \<and> cc mod qc \<noteq> 0)"

definition spec_keep :: "uint64 \<Rightarrow> uint64 \<Rightarrow> uint64 \<Rightarrow> uint64 \<Rightarrow> bool" where
  "spec_keep qi qc ci cc =
     ((qc mod cc = 0 \<and> qi mod cc = ci) \<or> (cc mod qc = 0 \<and> ci mod qc = qi)
      \<or> spec_incompatible qc cc)"

definition spec_block_kept :: "shard_parser \<Rightarrow> uint64 \<Rightarrow> uint64 \<Rightarrow> Block \<Rightarrow> bool" where
  "spec_block_kept parse qi qc b =
     (if CompactorShardID b = [] then True
      else case parse (CompactorShardID b) of
             None \<Rightarrow> True
           | Some (ci, cc) \<Rightarrow> spec_keep qi qc ci cc)"

definition spec_block_incompatible :: "shard_parser \<Rightarrow> uint64 \<Rightarrow> Block \<Rightarrow> bool" where
  "spec_block_incompatible parse qc b =
     (if CompactorShardID b = [] then False
      else case parse (CompactorShardID b) of
             None \<Rightarrow> False
           | Some (ci, cc) \<Rightarrow> spec_incompatible qc cc)"

text \<open>
  A well-formed shard ID names shard \<open>ci\<close> of \<open>cc\<close> with \<open>ci < cc\<close> (hence \<open>cc \<ge> 1\<close>).
\<close>

definition wellformed_shards :: "shard_parser \<Rightarrow> Block list \<Rightarrow> bool" where
  "wellformed_shards parse blocks =
     list_all (\<lambda>b. CompactorShardID b = [] \<or>
                 (case parse (CompactorShardID b) of None \<Rightarrow> True | Some (ci, cc) \<Rightarrow> ci < cc))
       blocks"

definition nonzero_shard_counts :: "shard_parser \<Rightarrow> Block list \<Rightarrow> bool" where
  "nonzero_shard_counts parse blocks =
     list_all (\<lambda>b. CompactorShardID b = [] \<or>
                 (case parse (CompactorShardID b) of None \<Rightarrow> True | Some (ci, cc) \<Rightarrow> cc \<noteq> 0))
       blocks"

section \<open>The query coordinator\<close>

text \<open>
  \<^verbatim>\<open>map[BlocksStoreClient][]ulid.ULID\<close>: the assignment returned by the replica selector.
  A client stands for its \<^verbatim>\<open>RemoteAddress()\<close>, which identifies the store-gateway
  instance; the list is in the order in which \<^verbatim>\<open>range\<close> visits the map.
  \<^verbatim>\<open>map[ulid.ULID][]string\<close>, the map of attempted blocks, is a function to address
  lists: a key that is absent reads as \<^verbatim>\<open>nil\<close>, and \<^verbatim>\<open>append\<close> to it gives the
  one-element list.
\<close>

type_synonym clients = "(string \<times> ulid list) list"
type_synonym attempted = "ulid \<Rightarrow> string list"

text \<open>
  The log of what a request does to its collaborators and to the metrics, in program
  order. It is not program state: it records the calls so that theorems can speak about
  them (whether the block finder was called, with which range, what was observed).
\<close>

datatype event =
    GetBlocksCall int int
  | GetClientsForCall nat "ulid list" attempted
  | QueryFuncCall nat clients int int
  | StoresHitObserve nat
  | RefetchesObserve nat
  | BlocksFoundAdd nat
  | BlocksQueriedAdd nat
  | IncompatibleShardAdd int

text \<open>
  The fields of \<^verbatim>\<open>blocksStoreQuerier\<close> that the code under study reads. The
  collaborators are interfaces and appear as functions: the block finder
  (\<^verbatim>\<open>GetBlocks\<close>), the replica selector (\<^verbatim>\<open>GetClientsFor\<close>), the consistency
  checker (\<^verbatim>\<open>Check\<close>) and the limits. The selector and the checker depend on the
  ring and on the wall clock, so they take the number of the attempt that calls them
  and need not answer the same way twice. \<open>now\<close> is what \<^verbatim>\<open>time.Now()\<close> returns.
  \<^verbatim>\<open>util.TimeToMillis\<close> and \<^verbatim>\<open>sharding.ParseShardIDLabelValue\<close> are helpers that
  are not among the sources at hand; they are parameters too. Times are \<^verbatim>\<open>int64\<close>
  milliseconds; the coordinator only compares them.
\<close>

record ('e, 'm) blocksStoreQuerier =
  querier_minT :: int
  querier_maxT :: int
  userID :: string
  finder_GetBlocks :: "string \<Rightarrow> int \<Rightarrow> int \<Rightarrow> 'e + (Block list \<times> 'm)"
  stores_GetClientsFor :: "nat \<Rightarrow> string \<Rightarrow> ulid list \<Rightarrow> attempted \<Rightarrow> 'e + clients"
  consistency_Check :: "nat \<Rightarrow> Block list \<Rightarrow> 'm \<Rightarrow> ulid list \<Rightarrow> ulid list"
  limits_MaxLabelsQueryLength :: "string \<Rightarrow> int"
  limits_MaxChunksPerQuery :: "string \<Rightarrow> int"
  queryStoreAfter :: int
  now :: int
  TimeToMillis :: "int \<Rightarrow> int"
  ParseShardIDLabelValue :: shard_parser

definition maxFetchSeriesAttempts :: nat where
  "maxFetchSeriesAttempts = 3"

text \<open>
  Modelled from the spec: \<^verbatim>\<open>math.Min64\<close> of the repository's \<^verbatim>\<open>pkg/util/math\<close>,
  which is not among the sources; the specification writes the clamp as
  \<open>maxT \<leftarrow> min(maxT, now - queryStoreAfter)\<close>.
\<close>

definition Min64 :: "int \<Rightarrow> int \<Rightarrow> int" where
  "Min64 a b = min a b"

text \<open>The variables declared before the retry loop and changed by it.\<close>

record loop_vars =
  remainingBlocks :: "ulid list"
  attemptedBlocks :: attempted
  touchedStores :: "string list"
  resQueriedBlocks :: "ulid list"

text \<open>
  The update of the attempted map after an attempt (the nested \<^verbatim>\<open>range\<close> loops):
  every client's address goes into \<open>touchedStores\<close> (a set, kept as a list without
  repetitions) and is appended to the entry of each of its blocks.
\<close>

fun recordBlockIDs :: "string \<Rightarrow> ulid list \<Rightarrow> attempted \<Rightarrow> attempted" where
  "recordBlockIDs addr [] att = att"
| "recordBlockIDs addr (blockID # blockIDs) att =
     recordBlockIDs addr blockIDs (att(blockID := att blockID @ [addr]))"

fun recordClients :: "clients \<Rightarrow> loop_vars \<Rightarrow> loop_vars" where
  "recordClients [] v = v"
| "recordClients ((addr, blockIDs) # cs) v =
     recordClients cs
       (v\<lparr>touchedStores := List.insert addr (touchedStores v),
          attemptedBlocks := recordBlockIDs addr blockIDs (attemptedBlocks v)\<rparr>)"

text \<open>
  How the \<^verbatim>\<open>for\<close> loop over the attempts ends: by a \<^verbatim>\<open>return\<close> inside it (of an
  error or of \<^verbatim>\<open>nil\<close>), or by leaving it (\<^verbatim>\<open>break\<close>, or the attempts are used up).
\<close>

datatype 'e loop_end = Returned "'e qerror option" | Exited

text \<open>
  The retry loop of \<^verbatim>\<open>queryWithConsistencyCheck\<close>. \<open>queryFunc\<close> is the closure passed
  by the caller; the variables it captures and changes are the state \<open>cs\<close>, which it
  takes and returns.
\<close>

function attempts_loop ::
  "('e, 'm) blocksStoreQuerier
     \<Rightarrow> ('s \<Rightarrow> clients \<Rightarrow> int \<Rightarrow> int \<Rightarrow> ('e qerror + ulid list) \<times> 's)
     \<Rightarrow> Block list \<Rightarrow> 'm \<Rightarrow> int \<Rightarrow> int \<Rightarrow> nat \<Rightarrow> loop_vars \<Rightarrow> 's \<Rightarrow> event list
     \<Rightarrow> 'e loop_end \<times> loop_vars \<times> 's \<times> event list" where
  "attempts_loop q queryFunc knownBlocks knownDeletionMarks minT maxT attempt v cs tr =
    (if attempt \<le> maxFetchSeriesAttempts then
       (let tr1 = tr @ [GetClientsForCall attempt (remainingBlocks v) (attemptedBlocks v)] in
        case stores_GetClientsFor q attempt (userID q) (remainingBlocks v) (attemptedBlocks v) of
          Inl err \<Rightarrow>
            (if attempt > 1 then (Exited, v, cs, tr1)
             else (Returned (Some (External err)), v, cs, tr1))
        | Inr clients \<Rightarrow>
            (let tr2 = tr1 @ [QueryFuncCall attempt clients minT maxT] in
             case queryFunc cs clients minT maxT of
               (Inl err, cs') \<Rightarrow> (Returned (Some err), v, cs', tr2)
             | (Inr queriedBlocks, cs') \<Rightarrow>
                 (let v' = recordClients clients
                             (v\<lparr>resQueriedBlocks := resQueriedBlocks v @ queriedBlocks\<rparr>);
                      missingBlocks = consistency_Check q attempt knownBlocks
                                        knownDeletionMarks (resQueriedBlocks v')
                  in
                  if length missingBlocks = 0
                  then (Returned None, v', cs',
                        tr2 @ [StoresHitObserve (length (touchedStores v')),
                               RefetchesObserve (attempt - 1)])
                  else attempts_loop q queryFunc knownBlocks knownDeletionMarks minT maxT
                         (attempt + 1) (v'\<lparr>remainingBlocks := missingBlocks\<rparr>) cs' tr2)))
     else (Exited, v, cs, tr))"
  by pat_completeness auto
termination
  by (relation "measure (\<lambda>(q, f, kb, km, minT, maxT, attempt, v, cs, tr).
                  maxFetchSeriesAttempts + 1 - attempt)")
     auto

declare attempts_loop.simps [simp del]

text \<open>
  The shard filter as \<^verbatim>\<open>queryWithConsistencyCheck\<close> applies it to the known blocks:
  only for a shard selector that is not \<^verbatim>\<open>nil\<close> and has a positive count. The second
  component is what the step adds to the log.
\<close>

definition filterKnownBlocks ::
  "shard_parser \<Rightarrow> (uint64 \<times> uint64) option \<Rightarrow> Block list \<Rightarrow> panic + (Block list \<times> event list)" where
  "filterKnownBlocks parse shard knownBlocks =
     (case shard of
        None \<Rightarrow> Inr (knownBlocks, [])
      | Some (shardIndex, shardCount) \<Rightarrow>
          (if shardCount > 0
           then (case filterBlocksByShard parse knownBlocks shardIndex shardCount of
                   Inl p \<Rightarrow> Inl p
                 | Inr (result, incompatibleBlocks) \<Rightarrow>
                     Inr (result, [IncompatibleShardAdd incompatibleBlocks]))
           else Inr (knownBlocks, [])))"

text \<open>
  What follows the loop: a \<^verbatim>\<open>return\<close> inside the loop is the result; when the loop
  was left, the blocks still remaining are reported as not queried.
\<close>

definition afterLoop ::
  "'e loop_end \<times> loop_vars \<times> 's \<times> event list
     \<Rightarrow> 'e qerror option \<times> loop_vars option \<times> 's \<times> event list" where
  "afterLoop r =
     (case r of
        (Returned e, v, cs, tr) \<Rightarrow> (e, Some v, cs, tr)
      | (Exited, v, cs, tr) \<Rightarrow>
          (Some (StoreConsistencyCheckFailed (remainingBlocks v)), Some v, cs, tr))"

definition initial_vars :: "Block list \<Rightarrow> loop_vars" where
  "initial_vars knownBlocks =
     \<lparr>remainingBlocks = map ID knownBlocks, attemptedBlocks = (\<lambda>_. []),
      touchedStores = [], resQueriedBlocks = []\<rparr>"

text \<open>
  The manipulation of the query's max time at the head of
  \<^verbatim>\<open>queryWithConsistencyCheck\<close>: with \<open>queryStoreAfter\<close> enabled, \<open>maxT\<close> becomes
  \<^verbatim>\<open>math.Min64(maxT, util.TimeToMillis(now.Add(-q.queryStoreAfter)))\<close>.
\<close>

definition clampMaxT :: "('e, 'm) blocksStoreQuerier \<Rightarrow> int \<Rightarrow> int" where
  "clampMaxT q maxT =
     (if queryStoreAfter q > 0
      then Min64 maxT (TimeToMillis q (now q - queryStoreAfter q)) else maxT)"

text \<open>
  \<^verbatim>\<open>queryWithConsistencyCheck\<close>. The result is the error returned (\<open>None\<close> for
  \<^verbatim>\<open>nil\<close>), the loop variables as they stand at the return (\<open>None\<close> when the function
  returns before the loop), the state of the closure, and the log.
\<close>

definition queryWithConsistencyCheck ::
  "('e, 'm) blocksStoreQuerier \<Rightarrow> int \<Rightarrow> int \<Rightarrow> (uint64 \<times> uint64) option
     \<Rightarrow> ('s \<Rightarrow> clients \<Rightarrow> int \<Rightarrow> int \<Rightarrow> ('e qerror + ulid list) \<times> 's) \<Rightarrow> 's
     \<Rightarrow> 'e qerror option \<times> loop_vars option \<times> 's \<times> event list" where
  "queryWithConsistencyCheck q minT maxT shard queryFunc cs =
    (let maxT = clampMaxT q maxT in
     if queryStoreAfter q > 0 \<and> maxT < minT then (None, None, cs, [StoresHitObserve 0])
     else
       (case finder_GetBlocks q (userID q) minT maxT of
          Inl err \<Rightarrow> (Some (External err), None, cs, [GetBlocksCall minT maxT])
        | Inr (knownBlocks, knownDeletionMarks) \<Rightarrow>
            (if length knownBlocks = 0
             then (None, None, cs, [GetBlocksCall minT maxT, StoresHitObserve 0])
             else
               (case filterKnownBlocks (ParseShardIDLabelValue q) shard knownBlocks of
                  Inl p \<Rightarrow>
                    (Some (Panic p), None, cs,
                     [GetBlocksCall minT maxT, BlocksFoundAdd (length knownBlocks)])
                | Inr (filteredBlocks, filterLog) \<Rightarrow>
                    afterLoop
                      (attempts_loop q queryFunc filteredBlocks knownDeletionMarks minT maxT 1
                         (initial_vars filteredBlocks) cs
                         ([GetBlocksCall minT maxT, BlocksFoundAdd (length knownBlocks)]
                          @ filterLog @ [BlocksQueriedAdd (length filteredBlocks)]))))))"


subsection \<open>Reading a result and its log\<close>

definition errorOf :: "'a \<times> 'b \<times> 'c \<times> 'd \<Rightarrow> 'a" where
  "errorOf r = fst r"

definition varsOf :: "'a \<times> 'b \<times> 'c \<times> 'd \<Rightarrow> 'b" where
  "varsOf r = fst (snd r)"

definition closureOf :: "'a \<times> 'b \<times> 'c \<times> 'd \<Rightarrow> 'c" where
  "closureOf r = fst (snd (snd r))"

definition logOf :: "'a \<times> 'b \<times> 'c \<times> 'd \<Rightarrow> 'd" where
  "logOf r = snd (snd (snd r))"

text \<open>The calls of the replica selector and of the query function in a log.\<close>

fun is_GetClientsForCall :: "event \<Rightarrow> bool" where
  "is_GetClientsForCall (GetClientsForCall attempt blockIDs exclude) = True"
| "is_GetClientsForCall _ = False"

fun is_QueryFuncCall :: "event \<Rightarrow> bool" where
  "is_QueryFuncCall (QueryFuncCall attempt cl minT maxT) = True"
| "is_QueryFuncCall _ = False"

fun is_GetBlocksCall :: "event \<Rightarrow> bool" where
  "is_GetBlocksCall (GetBlocksCall minT maxT) = True"
| "is_GetBlocksCall _ = False"

subsection \<open>The attempted map as a set of (block, replica) pairs\<close>

text \<open>
  The (block ID, replica address) pairs of an assignment, in the order in which the
  update loop visits them.
\<close>

definition assignment_pairs :: "clients \<Rightarrow> (ulid \<times> string) list" where
  "assignment_pairs cl = concat (map (\<lambda>(addr, blockIDs). map (\<lambda>b. (b, addr)) blockIDs) cl)"

text \<open>No (block, replica) pair is recorded twice: every entry of the map is distinct.\<close>

definition no_pair_twice :: "attempted \<Rightarrow> bool" where
  "no_pair_twice att = (\<forall>b. distinct (att b))"

text \<open>
  The assumption on the replica selector: it never assigns a block to a replica
  address that the exclusion map it is given lists for that block.
\<close>

definition selector_respects_exclusion ::
  "(nat \<Rightarrow> string \<Rightarrow> ulid list \<Rightarrow> attempted \<Rightarrow> 'e + clients) \<Rightarrow> bool" where
  "selector_respects_exclusion sel =
     (\<forall>attempt uid blockIDs exclude cl.
        sel attempt uid blockIDs exclude = Inr cl \<longrightarrow>
        (\<forall>p \<in> set (assignment_pairs cl). snd p \<notin> set (exclude (fst p))))"

text \<open>
  A second assumption on the selector: within one assignment no (block, replica) pair
  is listed twice.
\<close>

definition selector_assigns_once ::
  "(nat \<Rightarrow> string \<Rightarrow> ulid list \<Rightarrow> attempted \<Rightarrow> 'e + clients) \<Rightarrow> bool" where
  "selector_assigns_once sel =
     (\<forall>attempt uid blockIDs exclude cl.
        sel attempt uid blockIDs exclude = Inr cl \<longrightarrow> distinct (assignment_pairs cl))"

text \<open>
  Replaying a log: the attempted map that results from appending, for every query
  function call of the log, the pairs of its assignment; and the check that every call
  of the selector in the log was given exactly the map replayed up to that call.
\<close>

fun recordAssignment :: "clients \<Rightarrow> attempted \<Rightarrow> attempted" where
  "recordAssignment [] att = att"
| "recordAssignment ((addr, blockIDs) # cl) att =
     recordAssignment cl (recordBlockIDs addr blockIDs att)"

fun exclusions_follow :: "attempted \<Rightarrow> event list \<Rightarrow> bool" where
  "exclusions_follow att [] = True"
| "exclusions_follow att (GetClientsForCall attempt blockIDs exclude # es) =
     (exclude = att \<and> exclusions_follow att es)"
| "exclusions_follow att (QueryFuncCall attempt cl minT maxT # es) =
     exclusions_follow (recordAssignment cl att) es"
| "exclusions_follow att (e # es) = exclusions_follow att es"

fun replayed :: "attempted \<Rightarrow> event list \<Rightarrow> attempted" where
  "replayed att [] = att"
| "replayed att (QueryFuncCall attempt cl minT maxT # es) = replayed (recordAssignment cl att) es"
| "replayed att (e # es) = replayed att es"

fun exclusions :: "event list \<Rightarrow> attempted list" where
  "exclusions [] = []"
| "exclusions (GetClientsForCall attempt blockIDs exclude # es) = exclude # exclusions es"
| "exclusions (e # es) = exclusions es"

subsection \<open>A small cluster, for the examples\<close>

text \<open>
  The examples run the coordinator against a cluster given by the list of its replica
  addresses and by the (replica, block) pairs that tell which replica has which block
  loaded. The selector assigns the requested blocks to the first replica that is not
  excluded for any of them and fails when there is none; a replica hints the blocks assigned to it that it
  has loaded; a block is missing when no hint names it. There are no deletion marks
  (\<open>unit\<close>), errors are strings, and the closure has no variables.
\<close>

definition example_selector ::
  "string list \<Rightarrow> nat \<Rightarrow> string \<Rightarrow> ulid list \<Rightarrow> attempted \<Rightarrow> string + clients" where
  "example_selector replicas attempt uid blockIDs exclude =
     (case find (\<lambda>r. list_all (\<lambda>b. r \<notin> set (exclude b)) blockIDs) replicas of
        None \<Rightarrow> Inl ''no store-gateway instance left''
      | Some r \<Rightarrow> Inr [(r, remdups blockIDs)])"

text \<open>
  The same selector without the removal of repeated block IDs: it hands the requested
  list to the replica as it is.
\<close>

definition example_appending_selector ::
  "string list \<Rightarrow> nat \<Rightarrow> string \<Rightarrow> ulid list \<Rightarrow> attempted \<Rightarrow> string + clients" where
  "example_appending_selector replicas attempt uid blockIDs exclude =
     (case find (\<lambda>r. list_all (\<lambda>b. r \<notin> set (exclude b)) blockIDs) replicas of
        None \<Rightarrow> Inl ''no store-gateway instance left''
      | Some r \<Rightarrow> Inr [(r, blockIDs)])"

definition example_check :: "nat \<Rightarrow> Block list \<Rightarrow> unit \<Rightarrow> ulid list \<Rightarrow> ulid list" where
  "example_check attempt knownBlocks marks queried =
     filter (\<lambda>b. b \<notin> set queried) (map ID knownBlocks)"

definition example_queryFunc ::
  "(string \<times> ulid) list \<Rightarrow> unit \<Rightarrow> clients \<Rightarrow> int \<Rightarrow> int \<Rightarrow> (string qerror + ulid list) \<times> unit" where
  "example_queryFunc loaded cs cl minT maxT =
     (Inr (concat (map (\<lambda>(r, bs). filter (\<lambda>b. (r, b) \<in> set loaded) bs) cl)), ())"

definition example_querier ::
  "string list \<Rightarrow> Block list \<Rightarrow> int \<Rightarrow> (string, unit) blocksStoreQuerier" where
  "example_querier replicas known after =
     \<lparr>querier_minT = 1000, querier_maxT = 2000, userID = ''tenant'',
      finder_GetBlocks = (\<lambda>uid minT maxT. Inr (known, ())),
      stores_GetClientsFor = example_selector replicas,
      consistency_Check = example_check,
      limits_MaxLabelsQueryLength = (\<lambda>uid. 500000000),
      limits_MaxChunksPerQuery = (\<lambda>uid. 0),
      queryStoreAfter = after,
      now = 5000000000,
      TimeToMillis = (\<lambda>t. t div 1000000),
      ParseShardIDLabelValue = (\<lambda>s. None)\<rparr>"


section \<open>Rule group ownership in the ruler\<close>

text \<open>
  \<^verbatim>\<open>hash/fnv\<close>'s 32-bit FNV-1a, as \<^verbatim>\<open>tokenForGroup\<close> uses it: \<^verbatim>\<open>New32a\<close> starts from
  the offset basis, \<^verbatim>\<open>Write\<close> folds each byte in by exclusive or followed by a
  multiplication with the prime (on \<^verbatim>\<open>uint32\<close>, so it wraps), \<^verbatim>\<open>Sum32\<close> reads the
  state. A Go string converted to \<^verbatim>\<open>[]byte\<close> is its bytes; \<open>string\<close> is a list of
  8-bit characters.
\<close>

type_synonym uint32 = "32 word"

definition offset32 :: uint32 where
  "offset32 = 2166136261"

definition prime32 :: uint32 where
  "prime32 = 16777619"

definition New32a :: uint32 where
  "New32a = offset32"

fun sum32a_Write :: "uint32 \<Rightarrow> string \<Rightarrow> uint32" where
  "sum32a_Write hash [] = hash"
| "sum32a_Write hash (c # data) = sum32a_Write ((hash XOR of_char c) * prime32) data"

definition Sum32 :: "uint32 \<Rightarrow> uint32" where
  "Sum32 hash = hash"

record RuleGroupDesc =
  User :: string
  Namespace :: string
  Name :: string

definition sep :: string where
  "sep = ''/''"

definition tokenForGroup :: "RuleGroupDesc \<Rightarrow> uint32" where
  "tokenForGroup g =
     (let ringHasher = New32a;
          ringHasher = sum32a_Write ringHasher (User g);
          ringHasher = sum32a_Write ringHasher sep;
          ringHasher = sum32a_Write ringHasher (Namespace g);
          ringHasher = sum32a_Write ringHasher sep;
          ringHasher = sum32a_Write ringHasher (Name g)
      in Sum32 ringHasher)"

text \<open>
  The ring is the interface \<^verbatim>\<open>ring.ReadRing\<close> of a library; of it the code calls
  \<^verbatim>\<open>Get(hash, RingOp, nil, nil, nil)\<close>, which is the parameter \<open>r\<close>: it returns an
  error or a replication set. Of a replication set the code reads the address of
  \<^verbatim>\<open>Instances[0]\<close>; indexing an empty slice panics.
\<close>

record InstanceDesc =
  Addr :: string

record ReplicationSet =
  Instances :: "InstanceDesc list"

definition instanceOwnsRuleGroup ::
  "(uint32 \<Rightarrow> 'e + ReplicationSet) \<Rightarrow> RuleGroupDesc \<Rightarrow> string \<Rightarrow> 'e qerror + bool" where
  "instanceOwnsRuleGroup r g instanceAddr =
     (let hash = tokenForGroup g in
      case r hash of
        Inl err \<Rightarrow> Inl (Wrapped ''error reading ring to verify rule group ownership'' err)
      | Inr rlrs \<Rightarrow>
          (case Instances rlrs of
             [] \<Rightarrow> Inl (Panic IndexOutOfRange)
           | first # _ \<Rightarrow> Inr (Addr first = instanceAddr)))"

text \<open>
  The token as the specification words it: the FNV-1a hash of the one string
  \<open>tenant / namespace / name\<close>.
\<close>

definition fnv32a :: "string \<Rightarrow> uint32" where
  "fnv32a s = foldl (\<lambda>h c. (h XOR of_char c) * 16777619) 2166136261 s"


section \<open>Label queries\<close>

text \<open>
  \<^verbatim>\<open>model.Time\<close> is an \<^verbatim>\<open>int64\<close> of milliseconds and \<^verbatim>\<open>time.Duration\<close> an \<^verbatim>\<open>int64\<close>
  of nanoseconds; both are integers here, and \<open>int64\<close> is the wrap-around of a result
  into the 64-bit range. \<^verbatim>\<open>Time.Add\<close> of the Prometheus library is
  \<^verbatim>\<open>t + Time(d/minimumTick)\<close> with a tick of one millisecond; Go's division truncates
  towards zero (\<open>sdiv\<close>).
\<close>

definition int64 :: "int \<Rightarrow> int" where
  "int64 x = (x + 2 ^ 63) mod 2 ^ 64 - 2 ^ 63"

definition is_int64 :: "int \<Rightarrow> bool" where
  "is_int64 x = (- (2 ^ 63) \<le> x \<and> x < 2 ^ 63)"

definition minimumTick :: int where
  "minimumTick = 1000000"

definition Time_Add :: "int \<Rightarrow> int \<Rightarrow> int" where
  "Time_Add t d = int64 (t + int64 (d sdiv minimumTick))"

text \<open>
  Modelled from the spec: \<^verbatim>\<open>clampTime\<close>, a function of the repository's querier
  package that is not among the sources. The label queries call it as
  \<^verbatim>\<open>clampTime(ctx, startTime, maxQueryLength, endTime.Add(-maxQueryLength), true,
  "start", ...)\<close>, and the specification gives the effect of that call:
  \<open>minT \<leftarrow> max(minT, maxT - maxLen)\<close>, in its words \<open>minT = clamp(startTime, endTime -
  maxLen)\<close>. The model is of the call with the flag \<^verbatim>\<open>true\<close>: \<open>t\<close> is the time to
  clamp, \<open>limit\<close> the configured length and \<open>clamp\<close> the bound.
\<close>

definition clampTime :: "int \<Rightarrow> int \<Rightarrow> int \<Rightarrow> int" where
  "clampTime t limit clamp = max t clamp"

text \<open>
  The block \<^verbatim>\<open>// Clamp max time range\<close> that \<^verbatim>\<open>LabelNames\<close> and \<^verbatim>\<open>LabelValues\<close>
  share: the new value of \<open>minT\<close>.
\<close>

definition clampLabelsMinT :: "('e, 'm) blocksStoreQuerier \<Rightarrow> int" where
  "clampLabelsMinT q =
     (let minT = querier_minT q; maxT = querier_maxT q;
          startTime = minT; endTime = maxT;
          maxQueryLength = limits_MaxLabelsQueryLength q (userID q)
      in int64 (clampTime startTime maxQueryLength
                  (Time_Add endTime (int64 (- maxQueryLength)))))"

text \<open>
  \<^verbatim>\<open>LabelNames\<close> and \<^verbatim>\<open>LabelValues\<close>. The closure \<^verbatim>\<open>queryFunc\<close> captures the result
  sets and the warnings; \<open>w\<close> stands for the store-gateways it talks to. The fetch
  functions (\<^verbatim>\<open>fetchLabelNamesFromStore\<close>, \<^verbatim>\<open>fetchLabelValuesFromStore\<close>) and the merge
  of the library (\<^verbatim>\<open>strutil.MergeSlices\<close>) are parameters: what is modelled is the
  clamp, the closure and the call of \<^verbatim>\<open>queryWithConsistencyCheck\<close> with no shard. The
  result carries the log of the request.
\<close>

definition labelsQueryFunc ::
  "('w \<Rightarrow> clients \<Rightarrow> int \<Rightarrow> int
      \<Rightarrow> ('e qerror + (string list list \<times> string list \<times> ulid list)) \<times> 'w)
   \<Rightarrow> (string list list \<times> string list \<times> 'w) \<Rightarrow> clients \<Rightarrow> int \<Rightarrow> int
   \<Rightarrow> ('e qerror + ulid list) \<times> (string list list \<times> string list \<times> 'w)" where
  "labelsQueryFunc fetch cs cl minT maxT =
     (case cs of (resSets, resWarnings, w) \<Rightarrow>
        (case fetch w cl minT maxT of
           (Inl err, w') \<Rightarrow> (Inl err, (resSets, resWarnings, w'))
         | (Inr (sets, warnings, queriedBlocks), w') \<Rightarrow>
             (Inr queriedBlocks, (resSets @ sets, resWarnings @ warnings, w'))))"

definition LabelNames ::
  "('e, 'm) blocksStoreQuerier
   \<Rightarrow> ('w \<Rightarrow> clients \<Rightarrow> int \<Rightarrow> int
          \<Rightarrow> ('e qerror + (string list list \<times> string list \<times> ulid list)) \<times> 'w)
   \<Rightarrow> (string list list \<Rightarrow> string list) \<Rightarrow> 'w
   \<Rightarrow> ('e qerror + (string list \<times> string list)) \<times> event list" where
  "LabelNames q fetchLabelNamesFromStore MergeSlices w =
     (let minT = querier_minT q; maxT = querier_maxT q;
          minT = clampLabelsMinT q
      in case queryWithConsistencyCheck q minT maxT None
                (labelsQueryFunc fetchLabelNamesFromStore) ([], [], w) of
           (Some err, vars, cs, tr) \<Rightarrow> (Inl err, tr)
         | (None, vars, (resNameSets, resWarnings, w'), tr) \<Rightarrow>
             (Inr (MergeSlices resNameSets, resWarnings), tr))"

definition LabelValues ::
  "('e, 'm) blocksStoreQuerier \<Rightarrow> string
   \<Rightarrow> (string \<Rightarrow> 'w \<Rightarrow> clients \<Rightarrow> int \<Rightarrow> int
          \<Rightarrow> ('e qerror + (string list list \<times> string list \<times> ulid list)) \<times> 'w)
   \<Rightarrow> (string list list \<Rightarrow> string list) \<Rightarrow> 'w
   \<Rightarrow> ('e qerror + (string list \<times> string list)) \<times> event list" where
  "LabelValues q name fetchLabelValuesFromStore MergeSlices w =
     (let minT = querier_minT q; maxT = querier_maxT q;
          minT = clampLabelsMinT q
      in case queryWithConsistencyCheck q minT maxT None
                (labelsQueryFunc (fetchLabelValuesFromStore name)) ([], [], w) of
           (Some err, vars, cs, tr) \<Rightarrow> (Inl err, tr)
         | (None, vars, (resValueSets, resWarnings, w'), tr) \<Rightarrow>
             (Inr (MergeSlices resValueSets, resWarnings), tr))"


section \<open>Fetching series from the store-gateways\<close>

text \<open>
  A series of a response carries its labels and its chunks; of a chunk the code reads
  the size (\<^verbatim>\<open>c.Size()\<close>), so a chunk is its size. A response of the stream holds a
  series, a warning or hints. The hints arrive encoded: decoding can fail
  (\<^verbatim>\<open>types.UnmarshalAny\<close>), and so can the parsing of each block ID in them
  (\<^verbatim>\<open>ulid.Parse\<close>); \<open>Inl\<close> stands for a failure, with its error.
\<close>

record Series =
  PromLabels :: "(string \<times> string) list"
  Chunks :: "nat list"

datatype 'e SeriesResponse =
    SeriesResp Series
  | WarningResp string
  | HintsResp "'e + ('e + ulid) list"

text \<open>
  What a store-gateway does when it is called: \<^verbatim>\<open>c.Series\<close> fails, or it returns a
  stream whose \<^verbatim>\<open>Recv\<close> yields the responses in order and then \<^verbatim>\<open>io.EOF\<close> or an
  error.
\<close>

datatype 'e stream_end = EOF | RecvError 'e

datatype 'e series_call = OpenError 'e | Stream "'e SeriesResponse list" "'e stream_end"

record SeriesRequest =
  MinTime :: int
  MaxTime :: int
  Matchers :: string
  SkipChunks :: bool
  BlockMatchers :: "ulid list"

record SelectHints =
  Start :: int
  End :: int
  Func :: string

text \<open>
  The collaborators of a fetch: the store-gateways (by the number of the fetch within
  the request, the address called and the request sent), the query limiter of the
  context (its three checks return an error message or nothing, and change its state
  \<open>'l\<close>), the encoding of the request hints, which can fail, and the matchers parsed
  for a shard selector (\<^verbatim>\<open>sharding.ShardFromMatchers\<close>).
\<close>

record ('e, 'l) fetch_env =
  c_Series :: "nat \<Rightarrow> string \<Rightarrow> SeriesRequest \<Rightarrow> 'e series_call"
  AddSeries :: "'l \<Rightarrow> (string \<times> string) list \<Rightarrow> string option \<times> 'l"
  AddChunkBytes :: "'l \<Rightarrow> nat \<Rightarrow> string option \<times> 'l"
  AddChunks :: "'l \<Rightarrow> nat \<Rightarrow> string option \<times> 'l"
  MarshalAny :: "ulid list \<Rightarrow> 'e option"
  ShardFromMatchers :: "string \<Rightarrow> 'e + (uint64 \<times> uint64) option"

text \<open>
  \<^verbatim>\<open>createSeriesRequest\<close>: the request selects the given blocks; it fails when the
  hints cannot be encoded.
\<close>

definition createSeriesRequest ::
  "('e, 'l) fetch_env \<Rightarrow> int \<Rightarrow> int \<Rightarrow> string \<Rightarrow> bool \<Rightarrow> ulid list \<Rightarrow> 'e qerror + SeriesRequest" where
  "createSeriesRequest env minT maxT matchers skipChunks blockIDs =
     (case MarshalAny env blockIDs of
        Some err \<Rightarrow> Inl (Wrapped ''failed to marshal series request hints'' err)
      | None \<Rightarrow>
          Inr \<lparr>MinTime = minT, MaxTime = maxT, Matchers = matchers, SkipChunks = skipChunks,
               BlockMatchers = blockIDs\<rparr>)"

text \<open>\<^verbatim>\<open>convertBlockHintsToULIDs\<close>: the IDs in order, or the first parse error.\<close>

fun convertBlockHintsToULIDs :: "('e + ulid) list \<Rightarrow> 'e + ulid list" where
  "convertBlockHintsToULIDs [] = Inr []"
| "convertBlockHintsToULIDs (Inl err # hints) = Inl err"
| "convertBlockHintsToULIDs (Inr blockID # hints) =
     (case convertBlockHintsToULIDs hints of
        Inl err \<Rightarrow> Inl err
      | Inr res \<Rightarrow> Inr (blockID # res))"

text \<open>\<^verbatim>\<open>countChunksAndBytes\<close>: the number of chunks and the sum of their sizes.\<close>

fun countChunksAndBytes :: "Series list \<Rightarrow> nat \<times> nat" where
  "countChunksAndBytes [] = (0, 0)"
| "countChunksAndBytes (s # series) =
     (case countChunksAndBytes series of
        (chunks, bytes) \<Rightarrow> (length (Chunks s) + chunks, sum_list (Chunks s) + bytes))"

text \<open>
  The variables that the goroutines of one fetch share: the three accumulators behind
  the mutex, the atomic counter \<open>numChunks\<close> (an \<^verbatim>\<open>int32\<close>: a 32-bit word, compared as
  signed), the query limiter and the statistics of the context, and the error group:
  its first error, and whether its context is done (\<^verbatim>\<open>gCtx.Err() != nil\<close>).
\<close>

record ('e, 'l) group_state =
  seriesSets :: "Series list list"
  warnings :: "string list"
  queriedBlocks :: "ulid list"
  numChunks :: "32 word"
  queryLimiter :: 'l
  fetchedSeries :: nat
  fetchedChunkBytes :: nat
  fetchedChunks :: nat
  group_err :: "'e qerror option"
  ctx_done :: bool

text \<open>
  A goroutine returns an error: the group keeps the first one and cancels its context.
\<close>

definition group_fail :: "'e qerror \<Rightarrow> ('e, 'l) group_state \<Rightarrow> ('e, 'l) group_state" where
  "group_fail err g =
     g\<lparr>group_err := (case group_err g of None \<Rightarrow> Some err | Some first \<Rightarrow> Some first),
       ctx_done := True\<rparr>"

text \<open>
  The body of the receive loop after a response has arrived. \<open>my\<close> holds the local
  variables \<^verbatim>\<open>mySeries\<close>, \<^verbatim>\<open>myWarnings\<close> and \<^verbatim>\<open>myQueriedBlocks\<close>. The result is the
  error that the goroutine returns, or the new local variables. The chunk limit
  compares \<^verbatim>\<open>numChunks.Add(int32(chunksCount))\<close> with \<^verbatim>\<open>int32(leftChunksLimit)\<close>: both
  conversions keep the low 32 bits.
\<close>

definition handleResponse ::
  "('e, 'l) fetch_env \<Rightarrow> int \<Rightarrow> int \<Rightarrow> string \<Rightarrow> 'e SeriesResponse
     \<Rightarrow> Series list \<times> string list \<times> ulid list \<Rightarrow> ('e, 'l) group_state
     \<Rightarrow> ('e qerror + Series list \<times> string list \<times> ulid list) \<times> ('e, 'l) group_state" where
  "handleResponse env maxChunksLimit leftChunksLimit addr resp my g =
     (case my of (mySeries, myWarnings, myQueriedBlocks) \<Rightarrow>
        (case resp of
           SeriesResp s \<Rightarrow>
             (case AddSeries env (queryLimiter g) (PromLabels s) of
                (Some limitErr, l1) \<Rightarrow> (Inl (LimitError limitErr), g\<lparr>queryLimiter := l1\<rparr>)
              | (None, l1) \<Rightarrow>
                  (case countChunksAndBytes [s] of (chunksCount, chunksSize) \<Rightarrow>
                     (let g1 = (if maxChunksLimit > 0
                                then g\<lparr>queryLimiter := l1,
                                       numChunks := numChunks g + of_nat chunksCount\<rparr>
                                else g\<lparr>queryLimiter := l1\<rparr>)
                      in
                      if maxChunksLimit > 0 \<and> word_of_int leftChunksLimit <s numChunks g1
                      then (Inl (MaxChunksLimitError maxChunksLimit), g1)
                      else
                        (case AddChunkBytes env (queryLimiter g1) chunksSize of
                           (Some chunkBytesLimitErr, l2) \<Rightarrow>
                             (Inl (LimitError chunkBytesLimitErr), g1\<lparr>queryLimiter := l2\<rparr>)
                         | (None, l2) \<Rightarrow>
                             (case AddChunks env l2 (length (Chunks s)) of
                                (Some chunkLimitErr, l3) \<Rightarrow>
                                  (Inl (LimitError chunkLimitErr), g1\<lparr>queryLimiter := l3\<rparr>)
                              | (None, l3) \<Rightarrow>
                                  (Inr (mySeries @ [s], myWarnings, myQueriedBlocks),
                                   g1\<lparr>queryLimiter := l3\<rparr>))))))
         | WarningResp w \<Rightarrow>
             (Inr (mySeries, (if w \<noteq> [] then myWarnings @ [w] else myWarnings),
                   myQueriedBlocks), g)
         | HintsResp h \<Rightarrow>
             (case h of
                Inl err \<Rightarrow>
                  (Inl (Wrapped (''failed to unmarshal series hints from '' @ addr) err), g)
              | Inr blocks \<Rightarrow>
                  (case convertBlockHintsToULIDs blocks of
                     Inl err \<Rightarrow>
                       (Inl (Wrapped ''failed to parse queried block IDs from received hints''
                               err), g)
                   | Inr ids \<Rightarrow> (Inr (mySeries, myWarnings, myQueriedBlocks @ ids), g)))))"

text \<open>
  After \<^verbatim>\<open>io.EOF\<close>: the statistics are updated and the results of the stream are
  stored under the mutex.
\<close>

definition storeResult ::
  "Series list \<times> string list \<times> ulid list \<Rightarrow> ('e, 'l) group_state \<Rightarrow> ('e, 'l) group_state" where
  "storeResult my g =
     (case my of (mySeries, myWarnings, myQueriedBlocks) \<Rightarrow>
        (case countChunksAndBytes mySeries of (chunksFetched, chunkBytes) \<Rightarrow>
           g\<lparr>fetchedSeries := fetchedSeries g + length mySeries,
             fetchedChunkBytes := fetchedChunkBytes g + chunkBytes,
             fetchedChunks := fetchedChunks g + chunksFetched,
             seriesSets := seriesSets g @ [mySeries],
             warnings := warnings g @ myWarnings,
             queriedBlocks := queriedBlocks g @ myQueriedBlocks\<rparr>))"

text \<open>
  A goroutine of the fetch: not yet started (with the address it will call and the
  blocks it will ask for), in its receive loop (with its local variables and what the
  stream still holds), or returned.
\<close>

datatype 'e task =
    NotStarted string "ulid list"
  | Receiving string "Series list \<times> string list \<times> ulid list" "'e SeriesResponse list"
      "'e stream_end"
  | Returned_task

text \<open>
  One step of a goroutine: from the start to the opened stream (or to its return, when
  the request cannot be created or the stream cannot be opened), or one turn of the
  receive loop: the check of the context, \<^verbatim>\<open>Recv\<close>, and the handling of what arrived.
  \<open>n\<close> is the number of the fetch within the request.
\<close>

definition task_step ::
  "('e, 'l) fetch_env \<Rightarrow> nat \<Rightarrow> SelectHints \<Rightarrow> int \<Rightarrow> int \<Rightarrow> string \<Rightarrow> int \<Rightarrow> int
     \<Rightarrow> 'e task \<Rightarrow> ('e, 'l) group_state \<Rightarrow> 'e task \<times> ('e, 'l) group_state" where
  "task_step env n sp minT maxT matchers maxChunksLimit leftChunksLimit t g =
     (case t of
        NotStarted addr blockIDs \<Rightarrow>
          (case createSeriesRequest env minT maxT matchers (Func sp = ''series'') blockIDs of
             Inl err \<Rightarrow>
               (Returned_task,
                group_fail (case err of
                              Wrapped msg cause \<Rightarrow>
                                Wrapped (''failed to create series request: '' @ msg) cause
                            | other \<Rightarrow> other) g)
           | Inr req \<Rightarrow>
               (case c_Series env n addr req of
                  OpenError err \<Rightarrow> (Returned_task, g)
                | Stream resps fin \<Rightarrow> (Receiving addr ([], [], []) resps fin, g)))
      | Receiving addr my resps fin \<Rightarrow>
          (if ctx_done g then (Returned_task, group_fail ContextCanceled g)
           else
             (case resps of
                [] \<Rightarrow>
                  (case fin of
                     EOF \<Rightarrow> (Returned_task, storeResult my g)
                   | RecvError err \<Rightarrow> (Returned_task, g))
              | resp # rest \<Rightarrow>
                  (case handleResponse env maxChunksLimit leftChunksLimit addr resp my g of
                     (Inl err, g') \<Rightarrow> (Returned_task, group_fail err g')
                   | (Inr my', g') \<Rightarrow> (Receiving addr my' rest fin, g'))))
      | Returned_task \<Rightarrow> (Returned_task, g))"

text \<open>
  The goroutines run concurrently. A schedule tells in which order they take their
  steps, and when the context of the caller is cancelled; every interleaving of the
  steps is a schedule.
\<close>

datatype sched = Run nat | CancelParent

fun run_schedule ::
  "('e, 'l) fetch_env \<Rightarrow> nat \<Rightarrow> SelectHints \<Rightarrow> int \<Rightarrow> int \<Rightarrow> string \<Rightarrow> int \<Rightarrow> int
     \<Rightarrow> sched list \<Rightarrow> 'e task list \<times> ('e, 'l) group_state
     \<Rightarrow> 'e task list \<times> ('e, 'l) group_state" where
  "run_schedule env n sp minT maxT matchers maxChunksLimit leftChunksLimit [] tg = tg"
| "run_schedule env n sp minT maxT matchers maxChunksLimit leftChunksLimit (CancelParent # ss)
     (ts, g) =
     run_schedule env n sp minT maxT matchers maxChunksLimit leftChunksLimit ss
       (ts, g\<lparr>ctx_done := True\<rparr>)"
| "run_schedule env n sp minT maxT matchers maxChunksLimit leftChunksLimit (Run i # ss) (ts, g) =
     (if i < length ts
      then (case task_step env n sp minT maxT matchers maxChunksLimit leftChunksLimit (ts ! i) g of
              (t', g') \<Rightarrow>
                run_schedule env n sp minT maxT matchers maxChunksLimit leftChunksLimit ss
                  (ts[i := t'], g'))
      else run_schedule env n sp minT maxT matchers maxChunksLimit leftChunksLimit ss (ts, g))"

text \<open>
  \<^verbatim>\<open>g.Wait()\<close> returns when every goroutine has returned. The number of steps a
  goroutine still needs is bounded by what its stream holds, so after the schedule the
  goroutines that have not returned are run to their end, one after the other.
\<close>

definition steps_left ::
  "('e, 'l) fetch_env \<Rightarrow> nat \<Rightarrow> SelectHints \<Rightarrow> int \<Rightarrow> int \<Rightarrow> string \<Rightarrow> 'e task \<Rightarrow> nat" where
  "steps_left env n sp minT maxT matchers t =
     (case t of
        NotStarted addr blockIDs \<Rightarrow>
          (case createSeriesRequest env minT maxT matchers (Func sp = ''series'') blockIDs of
             Inl err \<Rightarrow> 1
           | Inr req \<Rightarrow>
               (case c_Series env n addr req of
                  OpenError err \<Rightarrow> 1
                | Stream resps fin \<Rightarrow> length resps + 2))
      | Receiving addr my resps fin \<Rightarrow> length resps + 1
      | Returned_task \<Rightarrow> 0)"

definition completion ::
  "('e, 'l) fetch_env \<Rightarrow> nat \<Rightarrow> SelectHints \<Rightarrow> int \<Rightarrow> int \<Rightarrow> string \<Rightarrow> 'e task list \<Rightarrow> sched list" where
  "completion env n sp minT maxT matchers ts =
     concat (map (\<lambda>i. replicate (steps_left env n sp minT maxT matchers (ts ! i)) (Run i))
               [0 ..< length ts])"

text \<open>
  \<^verbatim>\<open>fetchSeriesFromStores\<close>: one goroutine per client of the assignment, then
  \<^verbatim>\<open>g.Wait()\<close>; the first error of the group, or the accumulators and the chunk count.
  The state of the query limiter is returned with the result.
\<close>

definition fetchSeriesFromStores ::
  "('e, 'l) fetch_env \<Rightarrow> nat \<Rightarrow> sched list \<Rightarrow> SelectHints \<Rightarrow> clients \<Rightarrow> int \<Rightarrow> int \<Rightarrow> string
     \<Rightarrow> int \<Rightarrow> int \<Rightarrow> 'l
     \<Rightarrow> ('e qerror + Series list list \<times> ulid list \<times> string list \<times> int) \<times> 'l" where
  "fetchSeriesFromStores env n schedule sp cl minT maxT matchers maxChunksLimit leftChunksLimit
       limiter =
     (let g0 = \<lparr>seriesSets = [], warnings = [], queriedBlocks = [], numChunks = 0,
                queryLimiter = limiter, fetchedSeries = 0, fetchedChunkBytes = 0,
                fetchedChunks = 0, group_err = None, ctx_done = False\<rparr>;
          ts0 = map (\<lambda>(addr, blockIDs). NotStarted addr blockIDs) cl;
          tg1 = run_schedule env n sp minT maxT matchers maxChunksLimit leftChunksLimit
                  schedule (ts0, g0);
          tg2 = run_schedule env n sp minT maxT matchers maxChunksLimit leftChunksLimit
                  (completion env n sp minT maxT matchers (fst tg1)) tg1;
          g = snd tg2
      in case group_err g of
           Some err \<Rightarrow> (Inl err, queryLimiter g)
         | None \<Rightarrow>
             (Inr (seriesSets g, queriedBlocks g, warnings g, sint (numChunks g)),
              queryLimiter g))"

text \<open>
  \<^verbatim>\<open>selectSorted\<close>. Its closure \<^verbatim>\<open>queryFunc\<close> captures the result sets, the warnings
  and \<open>leftChunksLimit\<close>, which starts at the tenant's limit; besides them the state of
  the closure holds the number of fetches made so far and the state of the query
  limiter. \<open>schedules\<close> gives the schedule of each fetch. Go's \<^verbatim>\<open>int\<close> is an integer
  here: the limit and the chunk counts stay far from the ends of its 64 bits.
\<close>

record 'l select_vars =
  resSeriesSets :: "Series list list"
  resWarnings :: "string list"
  leftChunks :: int
  fetches :: nat
  limiterState :: 'l

definition selectQueryFunc ::
  "('e, 'l) fetch_env \<Rightarrow> (nat \<Rightarrow> sched list) \<Rightarrow> SelectHints \<Rightarrow> string \<Rightarrow> int
     \<Rightarrow> 'l select_vars \<Rightarrow> clients \<Rightarrow> int \<Rightarrow> int \<Rightarrow> ('e qerror + ulid list) \<times> 'l select_vars" where
  "selectQueryFunc env schedules sp matchers maxChunksLimit cs cl minT maxT =
     (case fetchSeriesFromStores env (fetches cs) (schedules (fetches cs)) sp cl minT maxT matchers
             maxChunksLimit (leftChunks cs) (limiterState cs) of
        (Inl err, l) \<Rightarrow> (Inl err, cs\<lparr>fetches := fetches cs + 1, limiterState := l\<rparr>)
      | (Inr (sets, queried, warns, chunks), l) \<Rightarrow>
          (Inr queried,
           cs\<lparr>resSeriesSets := resSeriesSets cs @ sets,
              resWarnings := resWarnings cs @ warns,
              leftChunks := (if maxChunksLimit > 0 then leftChunks cs - chunks
                             else leftChunks cs),
              fetches := fetches cs + 1,
              limiterState := l\<rparr>))"

definition selectSorted ::
  "('e, 'm) blocksStoreQuerier \<Rightarrow> ('e, 'l) fetch_env \<Rightarrow> (nat \<Rightarrow> sched list) \<Rightarrow> SelectHints
     \<Rightarrow> string \<Rightarrow> 'l
     \<Rightarrow> ('e qerror + Series list list \<times> string list) \<times> 'l select_vars option \<times> event list" where
  "selectSorted q env schedules sp matchers limiter =
     (let minT = Start sp; maxT = End sp;
          maxChunksLimit = limits_MaxChunksPerQuery q (userID q);
          leftChunksLimit = maxChunksLimit
      in case ShardFromMatchers env matchers of
           Inl err \<Rightarrow> (Inl (External err), None, [])
         | Inr shard \<Rightarrow>
             (case queryWithConsistencyCheck q minT maxT shard
                     (selectQueryFunc env schedules sp matchers maxChunksLimit)
                     \<lparr>resSeriesSets = [], resWarnings = [], leftChunks = leftChunksLimit,
                      fetches = 0, limiterState = limiter\<rparr> of
                (Some err, vars, cs, tr) \<Rightarrow> (Inl err, Some cs, tr)
              | (None, vars, cs, tr) \<Rightarrow>
                  (Inr (resSeriesSets cs, resWarnings cs), Some cs, tr)))"


subsection \<open>What the streams of a fetch deliver\<close>













text \<open>
  What a goroutine will still store if it runs to the end of its stream without an
  error: nothing unless the stream ends with \<^verbatim>\<open>io.EOF\<close>; and the chunks it will still
  count.
\<close>

definition joined ::
  "Series list \<times> string list \<times> ulid list \<Rightarrow> Series list \<times> string list \<times> ulid list
     \<Rightarrow> Series list \<times> string list \<times> ulid list" where
  "joined a b =
     (case a of (s1, w1, h1) \<Rightarrow> (case b of (s2, w2, h2) \<Rightarrow> (s1 @ s2, w1 @ w2, h1 @ h2)))"




text \<open>The example store-gateways: one series of one chunk, then the hints asked for.\<close>

definition example_env :: "(string, unit) fetch_env" where
  "example_env =
     \<lparr>c_Series = (\<lambda>n addr req.
          Stream [SeriesResp \<lparr>PromLabels = [(''job'', ''api'')], Chunks = [100]\<rparr>,
                  HintsResp (Inr (map Inr (BlockMatchers req)))] EOF),
      AddSeries = (\<lambda>l labels. (None, l)),
      AddChunkBytes = (\<lambda>l n. (None, l)),
      AddChunks = (\<lambda>l n. (None, l)),
      MarshalAny = (\<lambda>blockIDs. None),
      ShardFromMatchers = (\<lambda>matchers. Inr None)\<rparr>"







text \<open>
  Store-gateways of which two fail: the stream of \<open>A\<close> breaks after a series, a warning
  and its hints have arrived, \<open>B\<close> refuses the call, and every other one answers as in
  the example above.
\<close>

definition flaky_env :: "(string, unit) fetch_env" where
  "flaky_env =
     example_env\<lparr>c_Series := (\<lambda>n addr req.
        if addr = ''A'' then
          Stream [SeriesResp \<lparr>PromLabels = [(''job'', ''api'')], Chunks = [100]\<rparr>,
                  WarningResp ''slow'',
                  HintsResp (Inr (map Inr (BlockMatchers req)))] (RecvError ''reset'')
        else if addr = ''B'' then OpenError ''refused''
        else c_Series example_env n addr req)\<rparr>"

section \<open>Theorems: shard filter\<close>

lemma word_mod_zero_le:
  fixes a b :: "'a::len word"
  assumes "a mod b = 0" "a \<noteq> 0"
  shows "b \<le> a"
proof -
  have "unat a mod unat b = 0" using assms(1) by (metis unat_mod unat_0)
  hence "unat b dvd unat a" by auto
  moreover have "0 < unat a" using assms(2) by (simp add: unat_gt_0)
  ultimately have "unat b \<le> unat a" by (rule dvd_imp_le)
  thus ?thesis by (simp add: word_le_nat_alt)
qed

text \<open>
  With both counts non-zero nothing panics, the comparisons \<^verbatim>\<open>>=\<close> are implied by the
  remainders, and the function is the if / else-if / else chain of the specification.
\<close>

lemma canBlock_first_match:
  assumes "qc \<noteq> 0" "cc \<noteq> 0"
  shows "canBlockWithCompactorShardIndexContainQueryShard qi qc ci cc =
     Inr (if qc mod cc = 0 then ci = qi mod cc
          else if cc mod qc = 0 then qi = ci mod qc else True,
          qc mod cc = 0 \<or> cc mod qc = 0)"
  using assms word_mod_zero_le[of qc cc] word_mod_zero_le[of cc qc]
  by (auto simp: canBlockWithCompactorShardIndexContainQueryShard_def)

text \<open>A zero compactor shard count makes the comparison panic.\<close>

lemma canBlock_zero_count_panics:
  "canBlockWithCompactorShardIndexContainQueryShard qi qc ci 0 = Inl DivideByZero"
  by (simp add: canBlockWithCompactorShardIndexContainQueryShard_def)

lemma canBlock_spec:
  assumes "qc \<noteq> 0" "ci < cc"
  shows "canBlockWithCompactorShardIndexContainQueryShard qi qc ci cc =
     Inr (spec_keep qi qc ci cc, \<not> spec_incompatible qc cc)"
proof -
  have cc: "cc \<noteq> 0" using assms(2) by auto
  have m: "ci mod cc = ci" using assms(2) by (simp add: mod_word_less)
  show ?thesis
  proof (cases "qc mod cc = 0")
    case q: True
    show ?thesis
    proof (cases "cc mod qc = 0")
      case True
      have "qc = cc"
        using word_mod_zero_le[OF q assms(1)] word_mod_zero_le[OF True cc] by simp
      then show ?thesis
        unfolding canBlock_first_match[OF assms(1) cc] spec_keep_def spec_incompatible_def
        using m by auto
    next
      case False
      then show ?thesis
        unfolding canBlock_first_match[OF assms(1) cc] spec_keep_def spec_incompatible_def
        using q by auto
    qed
  next
    case False
    then show ?thesis
      unfolding canBlock_first_match[OF assms(1) cc] spec_keep_def spec_incompatible_def
      by auto
  qed
qed

text \<open>
  The loop, started at any index with any count: where no block from \<open>ix\<close> on makes the
  comparison panic, it keeps the blocks before \<open>ix\<close>, filters the rest by the first
  component of the verdict, and adds one to the count for each verdict whose second
  component is false.
\<close>

lemma filterBlocksByShard_loop_filter:
  assumes "list_all (\<lambda>b. \<exists>v. blockVerdict parse qi qc b = Inr v) (drop ix blocks)"
  shows "filterBlocksByShard_loop parse qi qc blocks ix n =
     Inr (take ix blocks @ filter (\<lambda>b. fst (projr (blockVerdict parse qi qc b))) (drop ix blocks),
          n + int (length (filter (\<lambda>b. \<not> snd (projr (blockVerdict parse qi qc b)))
                             (drop ix blocks))))"
  using assms
proof (induction parse qi qc blocks ix n rule: filterBlocksByShard_loop.induct)
  case (1 parse qi qc blocks ix n)
  show ?case
  proof (cases "ix < length blocks")
    case False
    then show ?thesis by (subst filterBlocksByShard_loop.simps) simp
  next
    case True
    then have d: "drop ix blocks = blocks ! ix # drop (Suc ix) blocks"
      by (simp add: Cons_nth_drop_Suc)
    have t: "take (Suc ix) blocks = take ix blocks @ [blocks ! ix]"
      using True by (simp add: take_Suc_conv_app_nth)
    from "1.prems" d obtain v where v: "blockVerdict parse qi qc (blocks ! ix) = Inr v"
      and rest: "list_all (\<lambda>b. \<exists>v. blockVerdict parse qi qc b = Inr v) (drop (Suc ix) blocks)"
      by auto
    have rest': "list_all (\<lambda>b. \<exists>v. blockVerdict parse qi qc b = Inr v)
        (drop ix (take ix blocks @ drop (ix + 1) blocks))"
      using rest True by simp
    have tk: "take ix (take ix blocks @ drop (ix + 1) blocks) = take ix blocks"
      using True by simp
    have dr: "drop ix (take ix blocks @ drop (ix + 1) blocks) = drop (Suc ix) blocks"
      using True by simp
    show ?thesis
    proof (cases "CompactorShardID (blocks ! ix) = []")
      case e: True
      then have v': "blockVerdict parse qi qc (blocks ! ix) = Inr (True, True)"
        by (simp add: blockVerdict_def)
      show ?thesis
        apply (subst filterBlocksByShard_loop.simps)
        using True e "1.IH"(1)[OF True e] rest v' d t by simp
    next
      case ne: False
      show ?thesis
      proof (cases "parse (CompactorShardID (blocks ! ix))")
        case None
        then have v': "blockVerdict parse qi qc (blocks ! ix) = Inr (True, True)"
          using ne by (simp add: blockVerdict_def)
        show ?thesis
          apply (subst filterBlocksByShard_loop.simps)
          using True ne None "1.IH"(2)[OF True ne None] rest v' d t by simp
      next
        case (Some p)
        obtain ci cc where p: "p = (ci, cc)" by (cases p)
        obtain res dv where vv: "v = (res, dv)" by (cases v)
        have cb: "canBlockWithCompactorShardIndexContainQueryShard qi qc ci cc = Inr (res, dv)"
          using v ne Some p vv by (simp add: blockVerdict_def)
        show ?thesis
        proof (cases res)
          case r: True
          show ?thesis
            apply (subst filterBlocksByShard_loop.simps)
            using True ne Some p cb r v vv d t rest
              "1.IH"(3)[OF True ne Some[unfolded p] refl cb refl r]
            by simp
        next
          case r: False
          show ?thesis
            apply (subst filterBlocksByShard_loop.simps)
            using True ne Some p cb r v vv d t rest' tk dr
              "1.IH"(4)[OF True ne Some[unfolded p] refl cb refl]
            by simp
        qed
      qed
    qed
  qed
qed

lemma blockVerdict_spec:
  assumes "1 \<le> qc"
    and "CompactorShardID b = [] \<or>
         (case parse (CompactorShardID b) of None \<Rightarrow> True | Some (ci, cc) \<Rightarrow> ci < cc)"
  shows "blockVerdict parse qi qc b =
           Inr (spec_block_kept parse qi qc b, \<not> spec_block_incompatible parse qc b)"
proof -
  have qc: "qc \<noteq> 0" using assms(1) by auto
  show ?thesis
    using assms(2) canBlock_spec[OF qc]
    by (auto simp: blockVerdict_def spec_block_kept_def spec_block_incompatible_def
        split: option.splits)
qed

lemma blockVerdict_first_match:
  assumes "1 \<le> qc"
    and "CompactorShardID b = [] \<or>
         (case parse (CompactorShardID b) of None \<Rightarrow> True | Some (ci, cc) \<Rightarrow> cc \<noteq> 0)"
  shows "\<exists>res. blockVerdict parse qi qc b = Inr (res, \<not> spec_block_incompatible parse qc b)"
proof -
  have qc: "qc \<noteq> 0" using assms(1) by auto
  show ?thesis
    using assms(2) canBlock_first_match[OF qc]
    by (auto simp: blockVerdict_def spec_block_incompatible_def spec_incompatible_def
        split: option.splits)
qed

text \<open>
  Claim C1. For every list of candidate blocks and every query shard \<open>qi\<close> of \<open>qc\<close> with
  \<open>qc \<ge> 1\<close>, \<^verbatim>\<open>filterBlocksByShard\<close> returns exactly the input blocks that satisfy the
  keep rule of the specification, in input order (the result is \<open>filter\<close> of the
  input), and the returned count is the number of blocks whose parsed shard count and
  the query shard count do not divide each other in either direction. The parser is a
  parameter; the shard IDs it reads from the blocks are taken to be well formed
  (index below count).
\<close>

theorem filterBlocksByShard_keep_rule:
  assumes "1 \<le> qc" and "wellformed_shards parse blocks"
  shows "filterBlocksByShard parse blocks qi qc =
           Inr (filter (spec_block_kept parse qi qc) blocks,
                int (length (filter (spec_block_incompatible parse qc) blocks)))"
proof -
  have v: "\<forall>b \<in> set blocks. blockVerdict parse qi qc b =
           Inr (spec_block_kept parse qi qc b, \<not> spec_block_incompatible parse qc b)"
    using assms(2) blockVerdict_spec[OF assms(1)]
    by (auto simp: wellformed_shards_def list_all_iff)
  have ok: "list_all (\<lambda>b. \<exists>v. blockVerdict parse qi qc b = Inr v) (drop 0 blocks)"
    using v by (auto simp: list_all_iff)
  have f1: "filter (\<lambda>b. fst (projr (blockVerdict parse qi qc b))) blocks =
            filter (spec_block_kept parse qi qc) blocks"
    by (rule filter_cong) (use v in auto)
  have f2: "filter (\<lambda>b. \<not> snd (projr (blockVerdict parse qi qc b))) blocks =
            filter (spec_block_incompatible parse qc) blocks"
    by (rule filter_cong) (use v in auto)
  show ?thesis
    unfolding filterBlocksByShard_def filterBlocksByShard_loop_filter[OF ok] using f1 f2 by simp
qed

text \<open>
  Witness for C1: shards 0 of 4, 1 of 4 and 2 of 3 and a block without shard ID under
  query shard 5 of 8. The first is dropped, the second kept (5 mod 4 = 1), the block
  without shard ID kept, the last kept and counted (3 and 8 do not divide each other).
\<close>

theorem filterBlocksByShard_keep_rule_witness:
  "1 \<le> (8::uint64) \<and>
   wellformed_shards (map_of [(''a'', (0, 4)), (''b'', (1, 4)), (''c'', (2, 3))])
     [\<lparr>ID = 1, CompactorShardID = ''a''\<rparr>, \<lparr>ID = 2, CompactorShardID = ''b''\<rparr>,
      \<lparr>ID = 3, CompactorShardID = []\<rparr>, \<lparr>ID = 4, CompactorShardID = ''c''\<rparr>] \<and>
   filterBlocksByShard (map_of [(''a'', (0, 4)), (''b'', (1, 4)), (''c'', (2, 3))])
     [\<lparr>ID = 1, CompactorShardID = ''a''\<rparr>, \<lparr>ID = 2, CompactorShardID = ''b''\<rparr>,
      \<lparr>ID = 3, CompactorShardID = []\<rparr>, \<lparr>ID = 4, CompactorShardID = ''c''\<rparr>] 5 8 =
   Inr ([\<lparr>ID = 2, CompactorShardID = ''b''\<rparr>, \<lparr>ID = 3, CompactorShardID = []\<rparr>,
         \<lparr>ID = 4, CompactorShardID = ''c''\<rparr>], 1)"
proof -
  have h1: "1 \<le> (8::uint64)" by simp
  have h2: "wellformed_shards (map_of [(''a'', (0, 4)), (''b'', (1, 4)), (''c'', (2, 3))])
     [\<lparr>ID = 1, CompactorShardID = ''a''\<rparr>, \<lparr>ID = 2, CompactorShardID = ''b''\<rparr>,
      \<lparr>ID = 3, CompactorShardID = []\<rparr>, \<lparr>ID = 4, CompactorShardID = ''c''\<rparr>]"
    by (simp add: wellformed_shards_def)
  show ?thesis
    using h1 h2 filterBlocksByShard_keep_rule[OF h1 h2, of 5]
    by (simp add: spec_block_kept_def spec_block_incompatible_def spec_keep_def
        spec_incompatible_def)
qed

text \<open>
  Claim C9. For every input block list (with well-formed shard IDs), filtering with
  query shard index 0 of count 1 returns the list unchanged, in order, and reports
  zero incompatible blocks.
\<close>

theorem filterBlocksByShard_identity:
  assumes "wellformed_shards parse blocks"
  shows "filterBlocksByShard parse blocks 0 1 = Inr (blocks, 0)"
proof -
  have v: "\<forall>b \<in> set blocks. blockVerdict parse 0 1 b = Inr (True, True)"
  proof
    fix b assume b: "b \<in> set blocks"
    have wf: "CompactorShardID b = [] \<or>
         (case parse (CompactorShardID b) of None \<Rightarrow> True | Some (ci, cc) \<Rightarrow> ci < cc)"
      using assms b by (auto simp: wellformed_shards_def list_all_iff)
    show "blockVerdict parse 0 1 b = Inr (True, True)"
    proof (cases "CompactorShardID b = []")
      case True then show ?thesis by (simp add: blockVerdict_def)
    next
      case ne: False
      show ?thesis
      proof (cases "parse (CompactorShardID b)")
        case None then show ?thesis using ne by (simp add: blockVerdict_def)
      next
        case (Some p)
        obtain ci cc where p: "p = (ci, cc)" by (cases p)
        have lt: "ci < cc" using wf ne Some p by simp
        hence cc0: "cc \<noteq> 0" by auto
        have "canBlockWithCompactorShardIndexContainQueryShard 0 1 ci cc = Inr (True, True)"
        proof (cases "cc = 1")
          case True
          hence "ci = 0" using lt by (simp add: word_less_1)
          thus ?thesis using True
            by (simp add: canBlockWithCompactorShardIndexContainQueryShard_def)
        next
          case False
          hence "\<not> cc \<le> 1" using cc0 by (auto simp: word_le_less_eq word_less_1)
          thus ?thesis using cc0
            by (simp add: canBlockWithCompactorShardIndexContainQueryShard_def)
        qed
        thus ?thesis using ne Some p by (simp add: blockVerdict_def)
      qed
    qed
  qed
  have ok: "list_all (\<lambda>b. \<exists>v. blockVerdict parse 0 1 b = Inr v) (drop 0 blocks)"
    using v by (auto simp: list_all_iff)
  have f1: "filter (\<lambda>b. fst (projr (blockVerdict parse 0 1 b))) blocks = blocks"
    using v by (auto simp: filter_id_conv)
  have f2: "filter (\<lambda>b. \<not> snd (projr (blockVerdict parse 0 1 b))) blocks = []"
    using v by (auto simp: filter_empty_conv)
  show ?thesis
    unfolding filterBlocksByShard_def filterBlocksByShard_loop_filter[OF ok] using f1 f2 by simp
qed

text \<open>
  Witness for C9: five blocks, among them shard 0 of 1, a block without shard ID and a
  block whose shard ID does not parse.
\<close>

theorem filterBlocksByShard_identity_witness:
  "wellformed_shards (map_of [(''a'', (0, 1)), (''b'', (1, 4)), (''c'', (2, 3))])
     [\<lparr>ID = 1, CompactorShardID = ''a''\<rparr>, \<lparr>ID = 2, CompactorShardID = ''b''\<rparr>,
      \<lparr>ID = 3, CompactorShardID = []\<rparr>, \<lparr>ID = 4, CompactorShardID = ''c''\<rparr>,
      \<lparr>ID = 5, CompactorShardID = ''zz''\<rparr>] \<and>
   filterBlocksByShard (map_of [(''a'', (0, 1)), (''b'', (1, 4)), (''c'', (2, 3))])
     [\<lparr>ID = 1, CompactorShardID = ''a''\<rparr>, \<lparr>ID = 2, CompactorShardID = ''b''\<rparr>,
      \<lparr>ID = 3, CompactorShardID = []\<rparr>, \<lparr>ID = 4, CompactorShardID = ''c''\<rparr>,
      \<lparr>ID = 5, CompactorShardID = ''zz''\<rparr>] 0 1 =
   Inr ([\<lparr>ID = 1, CompactorShardID = ''a''\<rparr>, \<lparr>ID = 2, CompactorShardID = ''b''\<rparr>,
      \<lparr>ID = 3, CompactorShardID = []\<rparr>, \<lparr>ID = 4, CompactorShardID = ''c''\<rparr>,
      \<lparr>ID = 5, CompactorShardID = ''zz''\<rparr>], 0)"
proof -
  have h: "wellformed_shards (map_of [(''a'', (0, 1)), (''b'', (1, 4)), (''c'', (2, 3))])
     [\<lparr>ID = 1, CompactorShardID = ''a''\<rparr>, \<lparr>ID = 2, CompactorShardID = ''b''\<rparr>,
      \<lparr>ID = 3, CompactorShardID = []\<rparr>, \<lparr>ID = 4, CompactorShardID = ''c''\<rparr>,
      \<lparr>ID = 5, CompactorShardID = ''zz''\<rparr>]"
    by (simp add: wellformed_shards_def)
  show ?thesis
    using h filterBlocksByShard_identity[OF h] by simp
qed

text \<open>
  Claim C10. A block whose shard ID is a non-empty string that the parser rejects is
  kept and is not counted: put anywhere into a list \<open>xs @ ys\<close>, it appears at its place
  among the kept blocks, and the returned count is the same as without it, namely the
  number of blocks of \<open>xs @ ys\<close> with a parsable shard ID whose count and the query
  shard count do not divide each other. (Shard counts read by the parser are taken to
  be non-zero, so that the comparison does not panic.)
\<close>

theorem filterBlocksByShard_unparsable_kept:
  assumes "1 \<le> qc" and "nonzero_shard_counts parse (xs @ ys)"
    and "CompactorShardID b \<noteq> []" and "parse (CompactorShardID b) = None"
  shows "\<exists>kx ky.
           filterBlocksByShard parse (xs @ b # ys) qi qc =
             Inr (kx @ b # ky,
                  int (length (filter (spec_block_incompatible parse qc) (xs @ ys)))) \<and>
           filterBlocksByShard parse (xs @ ys) qi qc =
             Inr (kx @ ky,
                  int (length (filter (spec_block_incompatible parse qc) (xs @ ys))))"
proof -
  let ?keep = "\<lambda>b. fst (projr (blockVerdict parse qi qc b))"
  let ?cnt = "\<lambda>b. \<not> snd (projr (blockVerdict parse qi qc b))"
  have vb: "blockVerdict parse qi qc b = Inr (True, True)"
    using assms(3,4) by (simp add: blockVerdict_def)
  have v: "\<forall>c \<in> set (xs @ ys).
             \<exists>res. blockVerdict parse qi qc c = Inr (res, \<not> spec_block_incompatible parse qc c)"
    using assms(2) blockVerdict_first_match[OF assms(1)]
    by (auto simp: nonzero_shard_counts_def list_all_iff)
  have ok1: "list_all (\<lambda>b. \<exists>v. blockVerdict parse qi qc b = Inr v) (drop 0 (xs @ ys))"
    unfolding list_all_iff using v by fastforce
  have ok2: "list_all (\<lambda>b. \<exists>v. blockVerdict parse qi qc b = Inr v) (drop 0 (xs @ b # ys))"
    unfolding list_all_iff using v vb by fastforce
  have c1: "filter ?cnt (xs @ ys) = filter (spec_block_incompatible parse qc) (xs @ ys)"
    by (rule filter_cong) (use v in fastforce)+
  have c2: "filter ?cnt (xs @ b # ys) = filter ?cnt (xs @ ys)"
    using vb by simp
  have k2: "filter ?keep (xs @ b # ys) = filter ?keep xs @ b # filter ?keep ys"
    using vb by simp
  have r1: "filterBlocksByShard parse (xs @ ys) qi qc =
      Inr (filter ?keep xs @ filter ?keep ys,
           int (length (filter (spec_block_incompatible parse qc) (xs @ ys))))"
    unfolding filterBlocksByShard_def filterBlocksByShard_loop_filter[OF ok1] using c1 by simp
  have r2: "filterBlocksByShard parse (xs @ b # ys) qi qc =
      Inr (filter ?keep xs @ b # filter ?keep ys,
           int (length (filter (spec_block_incompatible parse qc) (xs @ ys))))"
    unfolding filterBlocksByShard_def filterBlocksByShard_loop_filter[OF ok2]
    using c1 c2 k2 by simp
  show ?thesis using r1 r2 by blast
qed

text \<open>
  Witness for C10: the block with shard ID \<open>''zz''\<close>, which the parser rejects, between
  shard 0 of 4 and shard 2 of 3, under query shard 5 of 8; the count is 1 with and
  without it.
\<close>

theorem filterBlocksByShard_unparsable_kept_witness:
  "1 \<le> (8::uint64) \<and>
   nonzero_shard_counts (map_of [(''a'', (0, 4)), (''c'', (2, 3))])
     ([\<lparr>ID = 1, CompactorShardID = ''a''\<rparr>] @ [\<lparr>ID = 4, CompactorShardID = ''c''\<rparr>]) \<and>
   CompactorShardID \<lparr>ID = 2, CompactorShardID = ''zz''\<rparr> \<noteq> [] \<and>
   map_of [(''a'', (0::uint64, 4::uint64)), (''c'', (2, 3))]
      (CompactorShardID \<lparr>ID = 2, CompactorShardID = ''zz''\<rparr>) = None \<and>
   (\<exists>kx ky.
      filterBlocksByShard (map_of [(''a'', (0, 4)), (''c'', (2, 3))])
        ([\<lparr>ID = 1, CompactorShardID = ''a''\<rparr>] @ \<lparr>ID = 2, CompactorShardID = ''zz''\<rparr> #
         [\<lparr>ID = 4, CompactorShardID = ''c''\<rparr>]) 5 8 =
      Inr (kx @ \<lparr>ID = 2, CompactorShardID = ''zz''\<rparr> # ky, 1) \<and>
      filterBlocksByShard (map_of [(''a'', (0, 4)), (''c'', (2, 3))])
        ([\<lparr>ID = 1, CompactorShardID = ''a''\<rparr>] @ [\<lparr>ID = 4, CompactorShardID = ''c''\<rparr>]) 5 8 =
      Inr (kx @ ky, 1))"
proof -
  have h1: "1 \<le> (8::uint64)" by simp
  have h2: "nonzero_shard_counts (map_of [(''a'', (0, 4)), (''c'', (2, 3))])
     ([\<lparr>ID = 1, CompactorShardID = ''a''\<rparr>] @ [\<lparr>ID = 4, CompactorShardID = ''c''\<rparr>])"
    by (simp add: nonzero_shard_counts_def)
  have h3: "CompactorShardID \<lparr>ID = 2, CompactorShardID = ''zz''\<rparr> \<noteq> []" by simp
  have h4: "map_of [(''a'', (0::uint64, 4::uint64)), (''c'', (2, 3))]
      (CompactorShardID \<lparr>ID = 2, CompactorShardID = ''zz''\<rparr>) = None" by simp
  have n: "int (length (filter (spec_block_incompatible (map_of [(''a'', (0, 4)), (''c'', (2, 3))]) 8)
       ([\<lparr>ID = 1, CompactorShardID = ''a''\<rparr>] @ [\<lparr>ID = 4, CompactorShardID = ''c''\<rparr>]))) = 1"
    by (simp add: spec_block_incompatible_def spec_incompatible_def)
  show ?thesis
    using h1 h2 h3 h4 filterBlocksByShard_unparsable_kept[OF h1 h2 h3 h4, of 5]
    unfolding n by blast
qed

text \<open>The same call, evaluated on the code.\<close>

lemma filterBlocksByShard_unparsable_example:
  "filterBlocksByShard (map_of [(''a'', (0, 4)), (''c'', (2, 3))])
        [\<lparr>ID = 1, CompactorShardID = ''a''\<rparr>, \<lparr>ID = 2, CompactorShardID = ''zz''\<rparr>,
         \<lparr>ID = 4, CompactorShardID = ''c''\<rparr>] 5 8 =
      Inr ([\<lparr>ID = 2, CompactorShardID = ''zz''\<rparr>, \<lparr>ID = 4, CompactorShardID = ''c''\<rparr>], 1)"
  by (simp add: filterBlocksByShard_def canBlockWithCompactorShardIndexContainQueryShard_def)


section \<open>Theorems: the retry loop\<close>

text \<open>
  The five ways through one iteration of the loop, as conditional equations: the
  attempts are used up; the replica selector fails; the query function fails; the
  consistency check finds nothing missing; something is missing and the loop goes on.
\<close>

lemma attempts_loop_exhausted:
  "\<not> attempt \<le> maxFetchSeriesAttempts \<Longrightarrow>
   attempts_loop q queryFunc kb km minT maxT attempt v cs tr = (Exited, v, cs, tr)"
  by (subst attempts_loop.simps) simp

lemma attempts_loop_selector_fails:
  assumes "attempt \<le> maxFetchSeriesAttempts"
    and "stores_GetClientsFor q attempt (userID q) (remainingBlocks v) (attemptedBlocks v) = Inl err"
  shows "attempts_loop q queryFunc kb km minT maxT attempt v cs tr =
     (if attempt > 1 then Exited else Returned (Some (External err)), v, cs,
      tr @ [GetClientsForCall attempt (remainingBlocks v) (attemptedBlocks v)])"
  using assms by (subst attempts_loop.simps) (simp add: Let_def)

lemma attempts_loop_query_fails:
  assumes "attempt \<le> maxFetchSeriesAttempts"
    and "stores_GetClientsFor q attempt (userID q) (remainingBlocks v) (attemptedBlocks v) = Inr clients"
    and "queryFunc cs clients minT maxT = (Inl err, cs')"
  shows "attempts_loop q queryFunc kb km minT maxT attempt v cs tr =
     (Returned (Some err), v, cs',
      tr @ [GetClientsForCall attempt (remainingBlocks v) (attemptedBlocks v),
            QueryFuncCall attempt clients minT maxT])"
  using assms by (subst attempts_loop.simps) (simp add: Let_def)

lemma attempts_loop_complete:
  assumes "attempt \<le> maxFetchSeriesAttempts"
    and "stores_GetClientsFor q attempt (userID q) (remainingBlocks v) (attemptedBlocks v) = Inr clients"
    and "queryFunc cs clients minT maxT = (Inr queried, cs')"
    and "v' = recordClients clients (v\<lparr>resQueriedBlocks := resQueriedBlocks v @ queried\<rparr>)"
    and "consistency_Check q attempt kb km (resQueriedBlocks v') = []"
  shows "attempts_loop q queryFunc kb km minT maxT attempt v cs tr =
     (Returned None, v', cs',
      tr @ [GetClientsForCall attempt (remainingBlocks v) (attemptedBlocks v),
            QueryFuncCall attempt clients minT maxT,
            StoresHitObserve (length (touchedStores v')), RefetchesObserve (attempt - 1)])"
  using assms by (subst attempts_loop.simps) (simp add: Let_def)

lemma attempts_loop_retry:
  assumes "attempt \<le> maxFetchSeriesAttempts"
    and "stores_GetClientsFor q attempt (userID q) (remainingBlocks v) (attemptedBlocks v) = Inr clients"
    and "queryFunc cs clients minT maxT = (Inr queried, cs')"
    and "v' = recordClients clients (v\<lparr>resQueriedBlocks := resQueriedBlocks v @ queried\<rparr>)"
    and "consistency_Check q attempt kb km (resQueriedBlocks v') \<noteq> []"
  shows "attempts_loop q queryFunc kb km minT maxT attempt v cs tr =
     attempts_loop q queryFunc kb km minT maxT (attempt + 1)
       (v'\<lparr>remainingBlocks := consistency_Check q attempt kb km (resQueriedBlocks v')\<rparr>) cs'
       (tr @ [GetClientsForCall attempt (remainingBlocks v) (attemptedBlocks v),
              QueryFuncCall attempt clients minT maxT])"
  using assms by (subst attempts_loop.simps) (simp add: Let_def)



text \<open>
  Induction over the attempts, one case for each way through an iteration.
\<close>

lemma attempts_loop_induct_cases
  [consumes 0, case_names exhausted selector_fails query_fails complete retry]:
  fixes q :: "('e, 'm) blocksStoreQuerier"
    and queryFunc :: "'s \<Rightarrow> clients \<Rightarrow> int \<Rightarrow> int \<Rightarrow> ('e qerror + ulid list) \<times> 's"
  assumes exhausted: "\<And>attempt v cs tr. \<not> attempt \<le> maxFetchSeriesAttempts \<Longrightarrow> P attempt v cs tr"
    and selector_fails: "\<And>attempt v cs tr err.
          attempt \<le> maxFetchSeriesAttempts \<Longrightarrow>
          stores_GetClientsFor q attempt (userID q) (remainingBlocks v) (attemptedBlocks v) = Inl err
          \<Longrightarrow> P attempt v cs tr"
    and query_fails: "\<And>attempt v cs tr clients err cs'.
          attempt \<le> maxFetchSeriesAttempts \<Longrightarrow>
          stores_GetClientsFor q attempt (userID q) (remainingBlocks v) (attemptedBlocks v) = Inr clients
          \<Longrightarrow> queryFunc cs clients minT maxT = (Inl err, cs') \<Longrightarrow> P attempt v cs tr"
    and complete: "\<And>attempt v cs tr clients queried cs' v'.
          attempt \<le> maxFetchSeriesAttempts \<Longrightarrow>
          stores_GetClientsFor q attempt (userID q) (remainingBlocks v) (attemptedBlocks v) = Inr clients
          \<Longrightarrow> queryFunc cs clients minT maxT = (Inr queried, cs') \<Longrightarrow>
          v' = recordClients clients (v\<lparr>resQueriedBlocks := resQueriedBlocks v @ queried\<rparr>)
          \<Longrightarrow> consistency_Check q attempt kb km (resQueriedBlocks v') = [] \<Longrightarrow>
          P attempt v cs tr"
    and retry: "\<And>attempt v cs tr clients queried cs' v'.
          attempt \<le> maxFetchSeriesAttempts \<Longrightarrow>
          stores_GetClientsFor q attempt (userID q) (remainingBlocks v) (attemptedBlocks v) = Inr clients
          \<Longrightarrow> queryFunc cs clients minT maxT = (Inr queried, cs') \<Longrightarrow>
          v' = recordClients clients (v\<lparr>resQueriedBlocks := resQueriedBlocks v @ queried\<rparr>)
          \<Longrightarrow> consistency_Check q attempt kb km (resQueriedBlocks v') \<noteq> [] \<Longrightarrow>
          P (attempt + 1)
            (v'\<lparr>remainingBlocks := consistency_Check q attempt kb km (resQueriedBlocks v')\<rparr>) cs'
            (tr @ [GetClientsForCall attempt (remainingBlocks v) (attemptedBlocks v),
                   QueryFuncCall attempt clients minT maxT]) \<Longrightarrow>
          P attempt v cs tr"
  shows "P attempt v cs tr"
proof (induction "maxFetchSeriesAttempts + 1 - attempt" arbitrary: attempt v cs tr)
  case 0
  then show ?case by (intro exhausted) simp
next
  case (Suc n)
  then have le: "attempt \<le> maxFetchSeriesAttempts" by simp
  show ?case
  proof (cases "stores_GetClientsFor q attempt (userID q) (remainingBlocks v) (attemptedBlocks v)")
    case (Inl err)
    show ?thesis by (rule selector_fails[OF le Inl])
  next
    case (Inr clients)
    obtain r cs' where qf: "queryFunc cs clients minT maxT = (r, cs')"
      by (cases "queryFunc cs clients minT maxT")
    show ?thesis
    proof (cases r)
      case e: (Inl err)
      show ?thesis by (rule query_fails[OF le Inr qf[unfolded e]])
    next
      case r: (Inr queried)
      define v' where "v' = recordClients clients
         (v\<lparr>resQueriedBlocks := resQueriedBlocks v @ queried\<rparr>)"
      show ?thesis
      proof (cases "consistency_Check q attempt kb km (resQueriedBlocks v') = []")
        case True
        show ?thesis by (rule complete[OF le Inr qf[unfolded r] v'_def True])
      next
        case False
        have n: "n = maxFetchSeriesAttempts + 1 - (attempt + 1)" using Suc(2) by simp
        show ?thesis
          by (rule retry[OF le Inr qf[unfolded r] v'_def False]) (rule Suc(1)[OF n])
      qed
    qed
  qed
qed

text \<open>The loop only appends to the log.\<close>

lemma attempts_loop_trace_prefix:
  "\<exists>ext. snd (snd (snd (attempts_loop q queryFunc kb km minT maxT attempt v cs tr))) = tr @ ext"
proof (induction attempt v cs tr rule: attempts_loop_induct_cases[where q=q and queryFunc=queryFunc
        and kb=kb and km=km and minT=minT and maxT=maxT])
  case (exhausted attempt v cs tr)
  then show ?case by (simp add: attempts_loop_exhausted)
next
  case (selector_fails attempt v cs tr err)
  then show ?case by (simp add: attempts_loop_selector_fails)
next
  case (query_fails attempt v cs tr clients err cs')
  then show ?case
    by (simp add: attempts_loop_query_fails[where queryFunc=queryFunc and cs=cs])
next
  case (complete attempt v cs tr clients queried cs' v')
  then show ?case
    by (simp add: attempts_loop_complete[where queryFunc=queryFunc and cs=cs])
next
  case (retry attempt v cs tr clients queried cs' v')
  show ?case
    unfolding attempts_loop_retry[where queryFunc=queryFunc and cs=cs, OF retry(1-5)]
    using retry(6) by auto
qed

section \<open>Theorems: the phases of queryWithConsistencyCheck\<close>

lemma afterLoop_log: "logOf (afterLoop r) = logOf r"
  by (cases r rule: prod_cases4) (auto simp: afterLoop_def logOf_def split: loop_end.splits)

lemma attempts_loop_log_prefix:
  "\<exists>ext. logOf (attempts_loop q queryFunc kb km minT maxT attempt v cs tr) = tr @ ext"
  unfolding logOf_def by (rule attempts_loop_trace_prefix)

lemma queryWithConsistencyCheck_empty_range:
  assumes "queryStoreAfter q > 0" and "clampMaxT q maxT < minT"
  shows "queryWithConsistencyCheck q minT maxT shard queryFunc cs =
           (None, None, cs, [StoresHitObserve 0])"
  using assms by (auto simp: queryWithConsistencyCheck_def Let_def)

lemma queryWithConsistencyCheck_finder_fails:
  assumes "\<not> (queryStoreAfter q > 0 \<and> clampMaxT q maxT < minT)"
    and "finder_GetBlocks q (userID q) minT (clampMaxT q maxT) = Inl err"
  shows "queryWithConsistencyCheck q minT maxT shard queryFunc cs =
           (Some (External err), None, cs, [GetBlocksCall minT (clampMaxT q maxT)])"
  using assms by (auto simp: queryWithConsistencyCheck_def Let_def)

lemma queryWithConsistencyCheck_no_blocks:
  assumes "\<not> (queryStoreAfter q > 0 \<and> clampMaxT q maxT < minT)"
    and "finder_GetBlocks q (userID q) minT (clampMaxT q maxT) = Inr ([], km)"
  shows "queryWithConsistencyCheck q minT maxT shard queryFunc cs =
           (None, None, cs, [GetBlocksCall minT (clampMaxT q maxT), StoresHitObserve 0])"
  using assms by (auto simp: queryWithConsistencyCheck_def Let_def)

lemma queryWithConsistencyCheck_filter_panics:
  assumes "\<not> (queryStoreAfter q > 0 \<and> clampMaxT q maxT < minT)"
    and "finder_GetBlocks q (userID q) minT (clampMaxT q maxT) = Inr (kb, km)"
    and "kb \<noteq> []"
    and "filterKnownBlocks (ParseShardIDLabelValue q) shard kb = Inl p"
  shows "queryWithConsistencyCheck q minT maxT shard queryFunc cs =
           (Some (Panic p), None, cs,
            [GetBlocksCall minT (clampMaxT q maxT), BlocksFoundAdd (length kb)])"
  using assms by (auto simp: queryWithConsistencyCheck_def Let_def)

lemma queryWithConsistencyCheck_attempts:
  assumes "\<not> (queryStoreAfter q > 0 \<and> clampMaxT q maxT < minT)"
    and "finder_GetBlocks q (userID q) minT (clampMaxT q maxT) = Inr (kb, km)"
    and "kb \<noteq> []"
    and "filterKnownBlocks (ParseShardIDLabelValue q) shard kb = Inr (fb, fl)"
  shows "queryWithConsistencyCheck q minT maxT shard queryFunc cs =
           afterLoop (attempts_loop q queryFunc fb km minT (clampMaxT q maxT) 1
              (initial_vars fb) cs
              ([GetBlocksCall minT (clampMaxT q maxT), BlocksFoundAdd (length kb)] @ fl
                 @ [BlocksQueriedAdd (length fb)]))"
  using assms by (auto simp: queryWithConsistencyCheck_def Let_def)

text \<open>
  The five ways through \<^verbatim>\<open>queryWithConsistencyCheck\<close>, as a case rule.
\<close>

lemma queryWithConsistencyCheck_cases
  [consumes 0, case_names empty_range finder_fails no_blocks filter_panics attempts]:
  fixes q :: "('e, 'm) blocksStoreQuerier"
  assumes "queryStoreAfter q > 0 \<Longrightarrow> clampMaxT q maxT < minT \<Longrightarrow> R"
    and "\<And>err. \<not> (queryStoreAfter q > 0 \<and> clampMaxT q maxT < minT) \<Longrightarrow>
           finder_GetBlocks q (userID q) minT (clampMaxT q maxT) = Inl err \<Longrightarrow> R"
    and "\<And>km. \<not> (queryStoreAfter q > 0 \<and> clampMaxT q maxT < minT) \<Longrightarrow>
           finder_GetBlocks q (userID q) minT (clampMaxT q maxT) = Inr ([], km) \<Longrightarrow> R"
    and "\<And>kb km p. \<not> (queryStoreAfter q > 0 \<and> clampMaxT q maxT < minT) \<Longrightarrow>
           finder_GetBlocks q (userID q) minT (clampMaxT q maxT) = Inr (kb, km) \<Longrightarrow> kb \<noteq> [] \<Longrightarrow>
           filterKnownBlocks (ParseShardIDLabelValue q) shard kb = Inl p \<Longrightarrow> R"
    and "\<And>kb km fb fl. \<not> (queryStoreAfter q > 0 \<and> clampMaxT q maxT < minT) \<Longrightarrow>
           finder_GetBlocks q (userID q) minT (clampMaxT q maxT) = Inr (kb, km) \<Longrightarrow> kb \<noteq> [] \<Longrightarrow>
           filterKnownBlocks (ParseShardIDLabelValue q) shard kb = Inr (fb, fl) \<Longrightarrow> R"
  shows R
proof (cases "queryStoreAfter q > 0 \<and> clampMaxT q maxT < minT")
  case True
  then show ?thesis using assms(1) by blast
next
  case n: False
  show ?thesis
  proof (cases "finder_GetBlocks q (userID q) minT (clampMaxT q maxT)")
    case (Inl err)
    show ?thesis by (rule assms(2)[OF n Inl])
  next
    case (Inr p)
    obtain kb km where p: "p = (kb, km)" by (cases p)
    show ?thesis
    proof (cases "kb = []")
      case True
      show ?thesis by (rule assms(3)[OF n Inr[unfolded p True]])
    next
      case ne: False
      show ?thesis
      proof (cases "filterKnownBlocks (ParseShardIDLabelValue q) shard kb")
        case (Inl pn)
        show ?thesis by (rule assms(4)[OF n Inr[unfolded p] ne Inl])
      next
        case f: (Inr fr)
        obtain fb fl where fr: "fr = (fb, fl)" by (cases fr)
        show ?thesis by (rule assms(5)[OF n Inr[unfolded p] ne f[unfolded fr]])
      qed
    qed
  qed
qed

text \<open>Whenever the block finder is reached, the log starts with its call.\<close>

lemma queryWithConsistencyCheck_log_head:
  assumes "\<not> (queryStoreAfter q > 0 \<and> clampMaxT q maxT < minT)"
  shows "\<exists>rest. logOf (queryWithConsistencyCheck q minT maxT shard queryFunc cs) =
              GetBlocksCall minT (clampMaxT q maxT) # rest"
proof (cases rule: queryWithConsistencyCheck_cases[where q=q and maxT=maxT and minT=minT
      and shard=shard])
  case empty_range
  then show ?thesis using assms by simp
next
  case (finder_fails err)
  show ?thesis
    unfolding queryWithConsistencyCheck_finder_fails[OF finder_fails] by (simp add: logOf_def)
next
  case (no_blocks km)
  show ?thesis
    unfolding queryWithConsistencyCheck_no_blocks[OF no_blocks] by (simp add: logOf_def)
next
  case (filter_panics kb km p)
  show ?thesis
    unfolding queryWithConsistencyCheck_filter_panics[OF filter_panics] by (simp add: logOf_def)
next
  case (attempts kb km fb fl)
  obtain ext where ext:
    "logOf (attempts_loop q queryFunc fb km minT (clampMaxT q maxT) 1
        (initial_vars fb) cs
        ([GetBlocksCall minT (clampMaxT q maxT), BlocksFoundAdd (length kb)] @ fl
           @ [BlocksQueriedAdd (length fb)])) =
     ([GetBlocksCall minT (clampMaxT q maxT), BlocksFoundAdd (length kb)] @ fl
           @ [BlocksQueriedAdd (length fb)]) @ ext"
    by (rule exE[OF attempts_loop_log_prefix])
  show ?thesis
    unfolding queryWithConsistencyCheck_attempts[OF attempts] afterLoop_log ext by simp
qed

text \<open>
  Claim C4. With \<open>queryStoreAfter > 0\<close> the max time of the query becomes
  \<open>min maxT (now - queryStoreAfter)\<close> (in milliseconds, through \<^verbatim>\<open>TimeToMillis\<close>). If
  that is strictly less than \<open>minT\<close>, the request returns \<^verbatim>\<open>nil\<close> with the closure's
  results untouched, and its whole log is the observation of 0 by the stores-hit
  metric: neither the block finder nor the selector nor the query function is called.
  Otherwise the block finder is called, first of all, with the clamped max time.
\<close>

theorem queryStoreAfter_clamp:
  assumes "queryStoreAfter q > 0"
  shows "(min maxT (TimeToMillis q (now q - queryStoreAfter q)) < minT \<longrightarrow>
           queryWithConsistencyCheck q minT maxT shard queryFunc cs =
             (None, None, cs, [StoresHitObserve 0])) \<and>
         (\<not> min maxT (TimeToMillis q (now q - queryStoreAfter q)) < minT \<longrightarrow>
           (\<exists>rest. logOf (queryWithConsistencyCheck q minT maxT shard queryFunc cs) =
              GetBlocksCall minT (min maxT (TimeToMillis q (now q - queryStoreAfter q))) # rest))"
proof -
  have c: "clampMaxT q maxT = min maxT (TimeToMillis q (now q - queryStoreAfter q))"
    using assms by (simp add: clampMaxT_def Min64_def)
  show ?thesis
    using queryWithConsistencyCheck_empty_range[OF assms, of maxT minT shard queryFunc cs]
      queryWithConsistencyCheck_log_head[of q maxT minT shard queryFunc cs]
    unfolding c by auto
qed

text \<open>
  Witness for C4: now is 5000 ms and \<open>queryStoreAfter\<close> 4500 ms, so the max time is
  clamped to 500. A query from 1000 to 2000 returns at once; a query from 100 to 2000
  reaches the block finder with the range 100 to 500.
\<close>

theorem queryStoreAfter_clamp_witness:
  "queryStoreAfter (example_querier [''A''] [\<lparr>ID = 1, CompactorShardID = []\<rparr>] 4500000000) > 0 \<and>
   queryWithConsistencyCheck
     (example_querier [''A''] [\<lparr>ID = 1, CompactorShardID = []\<rparr>] 4500000000)
     1000 2000 None (example_queryFunc [(''A'', 1)]) () =
     (None, None, (), [StoresHitObserve 0]) \<and>
   (\<exists>rest. logOf (queryWithConsistencyCheck
     (example_querier [''A''] [\<lparr>ID = 1, CompactorShardID = []\<rparr>] 4500000000)
     100 2000 None (example_queryFunc [(''A'', 1)]) ()) = GetBlocksCall 100 500 # rest)"
proof -
  let ?q = "example_querier [''A''] [\<lparr>ID = 1, CompactorShardID = []\<rparr>] 4500000000"
  have h: "queryStoreAfter ?q > 0" by (simp add: example_querier_def)
  have m: "min 2000 (TimeToMillis ?q (now ?q - queryStoreAfter ?q)) = 500"
    by (simp add: example_querier_def)
  show ?thesis
    using h queryStoreAfter_clamp[OF h, of 2000 1000 None "example_queryFunc [(''A'', 1)]" "()"]
      queryStoreAfter_clamp[OF h, of 2000 100 None "example_queryFunc [(''A'', 1)]" "()"]
    unfolding m by simp
qed


section \<open>Theorems: attempts, selector failures and the final error\<close>

text \<open>
  Each attempt calls the replica selector once, and the loop runs the attempts from
  \<open>attempt\<close> up to \<^verbatim>\<open>maxFetchSeriesAttempts\<close>.
\<close>

lemma attempts_loop_selector_calls:
  "length (filter is_GetClientsForCall
      (logOf (attempts_loop q queryFunc kb km minT maxT attempt v cs tr)))
   \<le> length (filter is_GetClientsForCall tr) + (maxFetchSeriesAttempts + 1 - attempt)"
proof (induction attempt v cs tr rule: attempts_loop_induct_cases[where q=q and queryFunc=queryFunc
        and kb=kb and km=km and minT=minT and maxT=maxT])
  case (exhausted attempt v cs tr)
  then show ?case by (simp add: attempts_loop_exhausted logOf_def)
next
  case (selector_fails attempt v cs tr err)
  then show ?case by (simp add: attempts_loop_selector_fails logOf_def)
next
  case (query_fails attempt v cs tr clients err cs')
  then show ?case
    by (simp add: attempts_loop_query_fails[where queryFunc=queryFunc and cs=cs] logOf_def)
next
  case (complete attempt v cs tr clients queried cs' v')
  then show ?case
    by (simp add: attempts_loop_complete[where queryFunc=queryFunc and cs=cs] logOf_def)
next
  case (retry attempt v cs tr clients queried cs' v')
  show ?case
    unfolding attempts_loop_retry[where queryFunc=queryFunc and cs=cs, OF retry(1-5)]
    using retry(6) retry(1) by simp
qed

lemma filterKnownBlocks_log:
  assumes "filterKnownBlocks parse shard kb = Inr (fb, fl)"
  shows "filter is_GetClientsForCall fl = []" "filter is_QueryFuncCall fl = []"
    "filter is_GetBlocksCall fl = []"
  using assms
  by (auto simp: filterKnownBlocks_def split: option.splits if_splits sum.splits prod.splits)

lemma queryWithConsistencyCheck_selector_calls:
  "length (filter is_GetClientsForCall
      (logOf (queryWithConsistencyCheck q minT maxT shard queryFunc cs)))
   \<le> maxFetchSeriesAttempts"
proof (cases rule: queryWithConsistencyCheck_cases[where q=q and maxT=maxT and minT=minT
      and shard=shard])
  case empty_range
  show ?thesis
    unfolding queryWithConsistencyCheck_empty_range[OF empty_range] by (simp add: logOf_def)
next
  case (finder_fails err)
  show ?thesis
    unfolding queryWithConsistencyCheck_finder_fails[OF finder_fails] by (simp add: logOf_def)
next
  case (no_blocks km)
  show ?thesis
    unfolding queryWithConsistencyCheck_no_blocks[OF no_blocks] by (simp add: logOf_def)
next
  case (filter_panics kb km p)
  show ?thesis
    unfolding queryWithConsistencyCheck_filter_panics[OF filter_panics] by (simp add: logOf_def)
next
  case (attempts kb km fb fl)
  show ?thesis
    unfolding queryWithConsistencyCheck_attempts[OF attempts] afterLoop_log
    using attempts_loop_selector_calls[of q queryFunc fb km minT "clampMaxT q maxT" 1
        "initial_vars fb" cs
        "[GetBlocksCall minT (clampMaxT q maxT), BlocksFoundAdd (length kb)] @ fl
           @ [BlocksQueriedAdd (length fb)]"]
      filterKnownBlocks_log(1)[OF attempts(4)]
    by simp
qed

text \<open>
  At the head of every attempt after the first, the remaining blocks are what the
  consistency check of the attempt before reported missing, and there are some.
\<close>

lemma attempts_loop_exit_missing:
  assumes "1 \<le> attempt" and "attempt \<le> maxFetchSeriesAttempts + 1"
    and "1 < attempt \<longrightarrow> remainingBlocks v \<noteq> [] \<and>
           remainingBlocks v = consistency_Check q (attempt - 1) kb km (resQueriedBlocks v)"
    and "attempts_loop q queryFunc kb km minT maxT attempt v cs tr = (Exited, v', cs', tr')"
  shows "remainingBlocks v' \<noteq> [] \<and>
         (\<exists>k. 1 \<le> k \<and> attempt - 1 \<le> k \<and> k \<le> maxFetchSeriesAttempts \<and>
              length (filter is_QueryFuncCall tr') =
                length (filter is_QueryFuncCall tr) + (k - (attempt - 1)) \<and>
              remainingBlocks v' = consistency_Check q k kb km (resQueriedBlocks v'))"
  using assms
proof (induction attempt v cs tr rule: attempts_loop_induct_cases[where q=q and queryFunc=queryFunc
        and kb=kb and km=km and minT=minT and maxT=maxT])
  case (exhausted attempt v cs tr)
  have a: "attempt = maxFetchSeriesAttempts + 1" using exhausted(1,3) by simp
  have e: "v' = v" "tr' = tr"
    using exhausted(5)
      attempts_loop_exhausted[where queryFunc=queryFunc and q=q and kb=kb and km=km
        and minT=minT and maxT=maxT and v=v and cs=cs and tr=tr, OF exhausted(1)]
    by simp_all
  have gt: "1 < attempt" using a by (simp add: maxFetchSeriesAttempts_def)
  show ?case
    unfolding e using exhausted(4) gt a
    by (intro conjI exI[of _ maxFetchSeriesAttempts]) (auto simp: maxFetchSeriesAttempts_def)
next
  case (selector_fails attempt v cs tr err)
  have r: "attempts_loop q queryFunc kb km minT maxT attempt v cs tr =
     (if attempt > 1 then Exited else Returned (Some (External err)), v, cs,
      tr @ [GetClientsForCall attempt (remainingBlocks v) (attemptedBlocks v)])"
    by (rule attempts_loop_selector_fails[OF selector_fails(1,2)])
  have gt: "1 < attempt" using selector_fails(6) r by (auto split: if_splits)
  have e: "v' = v" "tr' = tr @ [GetClientsForCall attempt (remainingBlocks v) (attemptedBlocks v)]"
    using selector_fails(6) r by (auto split: if_splits)
  show ?case
    unfolding e using selector_fails(5) gt selector_fails(1)
    by (intro conjI exI[of _ "attempt - 1"]) auto
next
  case (query_fails attempt v cs tr clients err cs'')
  then show ?case
    by (simp add: attempts_loop_query_fails[where queryFunc=queryFunc and cs=cs])
next
  case (complete attempt v cs tr clients queried cs'' v'')
  then show ?case
    by (simp add: attempts_loop_complete[where queryFunc=queryFunc and cs=cs])
next
  case (retry attempt v cs tr clients queried cs'' v'')
  let ?v = "v''\<lparr>remainingBlocks := consistency_Check q attempt kb km (resQueriedBlocks v'')\<rparr>"
  let ?tr = "tr @ [GetClientsForCall attempt (remainingBlocks v) (attemptedBlocks v),
                   QueryFuncCall attempt clients minT maxT]"
  have run: "attempts_loop q queryFunc kb km minT maxT (attempt + 1) ?v cs'' ?tr =
      (Exited, v', cs', tr')"
    using retry(10)
    unfolding attempts_loop_retry[where queryFunc=queryFunc and cs=cs, OF retry(1-5)] .
  have inv: "1 < attempt + 1 \<longrightarrow> remainingBlocks ?v \<noteq> [] \<and>
      remainingBlocks ?v = consistency_Check q (attempt + 1 - 1) kb km (resQueriedBlocks ?v)"
    using retry(5) by simp
  have b: "1 \<le> attempt + 1" "attempt + 1 \<le> maxFetchSeriesAttempts + 1"
    using retry(1) by simp_all
  from retry(6)[OF b inv run] obtain k where
    k: "remainingBlocks v' \<noteq> []" "1 \<le> k" "attempt + 1 - 1 \<le> k" "k \<le> maxFetchSeriesAttempts"
      "length (filter is_QueryFuncCall tr') =
         length (filter is_QueryFuncCall ?tr) + (k - (attempt + 1 - 1))"
      "remainingBlocks v' = consistency_Check q k kb km (resQueriedBlocks v')"
    by blast
  show ?case
    using k retry(7)
    by (intro conjI exI[of _ k]) auto
qed


lemma afterLoop_Exited:
  "afterLoop (Exited, v, cs, tr) =
     (Some (StoreConsistencyCheckFailed (remainingBlocks v)), Some v, cs, tr)"
  by (simp add: afterLoop_def)

lemma afterLoop_Returned: "afterLoop (Returned e, v, cs, tr) = (e, Some v, cs, tr)"
  by (simp add: afterLoop_def)

text \<open>
  Claim C2. (1) A request calls the replica selector at most three times, once per
  attempt. (2) If the selector fails on attempt 1, its error is the result, as it is.
  (3) If it fails on a later attempt, the loop is left at once: the loop variables
  (among them the blocks queried so far) and the results held by the closure stay as
  they are, and the query function is not called again. (4) Whenever the loop is left
  (by that \<^verbatim>\<open>break\<close> or with the attempts used up), the request fails with the
  consistency-check error that lists the remaining blocks; they are not empty, and
  they are exactly what the consistency check of the last attempt that ran, the
  \<open>k\<close>-th, reported missing from all blocks queried so far.
\<close>

theorem retry_loop_contract:
  "length (filter is_GetClientsForCall
      (logOf (queryWithConsistencyCheck q minT maxT shard queryFunc cs)))
     \<le> maxFetchSeriesAttempts
   \<and> (stores_GetClientsFor q 1 (userID q) (remainingBlocks v) (attemptedBlocks v) = Inl err \<longrightarrow>
        afterLoop (attempts_loop q queryFunc kb km minT maxT 1 v cs tr) =
          (Some (External err), Some v, cs,
           tr @ [GetClientsForCall 1 (remainingBlocks v) (attemptedBlocks v)]))
   \<and> (1 < attempt \<and> attempt \<le> maxFetchSeriesAttempts \<and>
        stores_GetClientsFor q attempt (userID q) (remainingBlocks v) (attemptedBlocks v) = Inl err
        \<longrightarrow>
        attempts_loop q queryFunc kb km minT maxT attempt v cs tr =
          (Exited, v, cs, tr @ [GetClientsForCall attempt (remainingBlocks v) (attemptedBlocks v)]))
   \<and> (attempts_loop q queryFunc kb km minT maxT 1 v cs tr = (Exited, v', cs', tr') \<longrightarrow>
        afterLoop (Exited, v', cs', tr') =
          (Some (StoreConsistencyCheckFailed (remainingBlocks v')), Some v', cs', tr') \<and>
        remainingBlocks v' \<noteq> [] \<and>
        (\<exists>k. 1 \<le> k \<and> k \<le> maxFetchSeriesAttempts \<and>
             length (filter is_QueryFuncCall tr') = length (filter is_QueryFuncCall tr) + k \<and>
             remainingBlocks v' = consistency_Check q k kb km (resQueriedBlocks v')))"
proof (intro conjI impI)
  show "length (filter is_GetClientsForCall
      (logOf (queryWithConsistencyCheck q minT maxT shard queryFunc cs)))
     \<le> maxFetchSeriesAttempts"
    by (rule queryWithConsistencyCheck_selector_calls)
next
  assume f: "stores_GetClientsFor q 1 (userID q) (remainingBlocks v) (attemptedBlocks v) = Inl err"
  have le: "1 \<le> maxFetchSeriesAttempts" by (simp add: maxFetchSeriesAttempts_def)
  show "afterLoop (attempts_loop q queryFunc kb km minT maxT 1 v cs tr) =
          (Some (External err), Some v, cs,
           tr @ [GetClientsForCall 1 (remainingBlocks v) (attemptedBlocks v)])"
    unfolding attempts_loop_selector_fails[OF le f] by (simp add: afterLoop_Returned)
next
  assume a: "1 < attempt \<and> attempt \<le> maxFetchSeriesAttempts \<and>
        stores_GetClientsFor q attempt (userID q) (remainingBlocks v) (attemptedBlocks v) = Inl err"
  then have le: "attempt \<le> maxFetchSeriesAttempts"
    and f: "stores_GetClientsFor q attempt (userID q) (remainingBlocks v) (attemptedBlocks v) = Inl err"
    by simp_all
  show "attempts_loop q queryFunc kb km minT maxT attempt v cs tr =
          (Exited, v, cs, tr @ [GetClientsForCall attempt (remainingBlocks v) (attemptedBlocks v)])"
    unfolding attempts_loop_selector_fails[OF le f] using a by simp
next
  assume "attempts_loop q queryFunc kb km minT maxT 1 v cs tr = (Exited, v', cs', tr')"
  show "afterLoop (Exited, v', cs', tr') =
          (Some (StoreConsistencyCheckFailed (remainingBlocks v')), Some v', cs', tr')"
    by (rule afterLoop_Exited)
next
  assume r: "attempts_loop q queryFunc kb km minT maxT 1 v cs tr = (Exited, v', cs', tr')"
  have b: "(1::nat) \<le> 1" "1 \<le> maxFetchSeriesAttempts + 1" by simp_all
  have i: "1 < (1::nat) \<longrightarrow> remainingBlocks v \<noteq> [] \<and>
           remainingBlocks v = consistency_Check q (1 - 1) kb km (resQueriedBlocks v)" by simp
  from attempts_loop_exit_missing[OF b i r]
  show "remainingBlocks v' \<noteq> []" by blast
next
  assume r: "attempts_loop q queryFunc kb km minT maxT 1 v cs tr = (Exited, v', cs', tr')"
  have b: "(1::nat) \<le> 1" "1 \<le> maxFetchSeriesAttempts + 1" by simp_all
  have i: "1 < (1::nat) \<longrightarrow> remainingBlocks v \<noteq> [] \<and>
           remainingBlocks v = consistency_Check q (1 - 1) kb km (resQueriedBlocks v)" by simp
  from attempts_loop_exit_missing[OF b i r]
  show "\<exists>k. 1 \<le> k \<and> k \<le> maxFetchSeriesAttempts \<and>
             length (filter is_QueryFuncCall tr') = length (filter is_QueryFuncCall tr) + k \<and>
             remainingBlocks v' = consistency_Check q k kb km (resQueriedBlocks v')"
    by auto
qed

text \<open>The definitions that the examples unfold.\<close>

lemmas run_defs = queryWithConsistencyCheck_def example_querier_def clampMaxT_def
     filterKnownBlocks_def initial_vars_def attempts_loop.simps maxFetchSeriesAttempts_def
     example_selector_def example_queryFunc_def example_check_def afterLoop_def
     errorOf_def varsOf_def logOf_def closureOf_def Let_def

text \<open>
  Witness for C2, on block 1 which no replica has loaded. With four replicas the
  selector is called three times. With no replica the selector fails on attempt 1 and
  its error is returned. With the single replica \<open>A\<close> the selector fails on attempt 2
  (\<open>A\<close> is excluded), the loop is left, and the request fails naming block 1.
\<close>

theorem retry_loop_contract_witness:
  "length (filter is_GetClientsForCall
      (logOf (queryWithConsistencyCheck
         (example_querier [''A'', ''B'', ''C'', ''D''] [\<lparr>ID = 1, CompactorShardID = []\<rparr>] 0)
         100 2000 None (example_queryFunc []) ())))
     \<le> maxFetchSeriesAttempts
   \<and> stores_GetClientsFor (example_querier [] [\<lparr>ID = 1, CompactorShardID = []\<rparr>] 0) 1
        (userID (example_querier [] [\<lparr>ID = 1, CompactorShardID = []\<rparr>] 0))
        (remainingBlocks (initial_vars [\<lparr>ID = 1, CompactorShardID = []\<rparr>]))
        (attemptedBlocks (initial_vars [\<lparr>ID = 1, CompactorShardID = []\<rparr>]))
       = Inl ''no store-gateway instance left''
   \<and> errorOf (afterLoop (attempts_loop
         (example_querier [] [\<lparr>ID = 1, CompactorShardID = []\<rparr>] 0) (example_queryFunc [])
         [\<lparr>ID = 1, CompactorShardID = []\<rparr>] () 100 2000 1
         (initial_vars [\<lparr>ID = 1, CompactorShardID = []\<rparr>]) () []))
       = Some (External ''no store-gateway instance left'')
   \<and> fst (attempts_loop
         (example_querier [''A''] [\<lparr>ID = 1, CompactorShardID = []\<rparr>] 0) (example_queryFunc [])
         [\<lparr>ID = 1, CompactorShardID = []\<rparr>] () 100 2000 1
         (initial_vars [\<lparr>ID = 1, CompactorShardID = []\<rparr>]) () []) = Exited
   \<and> remainingBlocks (fst (snd (attempts_loop
         (example_querier [''A''] [\<lparr>ID = 1, CompactorShardID = []\<rparr>] 0) (example_queryFunc [])
         [\<lparr>ID = 1, CompactorShardID = []\<rparr>] () 100 2000 1
         (initial_vars [\<lparr>ID = 1, CompactorShardID = []\<rparr>]) () []))) \<noteq> []
   \<and> errorOf (afterLoop (attempts_loop
         (example_querier [''A''] [\<lparr>ID = 1, CompactorShardID = []\<rparr>] 0) (example_queryFunc [])
         [\<lparr>ID = 1, CompactorShardID = []\<rparr>] () 100 2000 1
         (initial_vars [\<lparr>ID = 1, CompactorShardID = []\<rparr>]) () []))
       = Some (StoreConsistencyCheckFailed [1])"
proof -
  let ?kb = "[\<lparr>ID = 1, CompactorShardID = []\<rparr>]"
  let ?q0 = "example_querier [] ?kb 0"
  let ?q1 = "example_querier [''A''] ?kb 0"
  let ?q4 = "example_querier [''A'', ''B'', ''C'', ''D''] ?kb 0"
  let ?run1 = "attempts_loop ?q1 (example_queryFunc []) ?kb () 100 2000 1 (initial_vars ?kb) () []"
  have h2: "stores_GetClientsFor ?q0 1 (userID ?q0) (remainingBlocks (initial_vars ?kb))
        (attemptedBlocks (initial_vars ?kb)) = Inl ''no store-gateway instance left''"
    by (simp add: run_defs)
  have e1: "fst ?run1 = Exited" by (simp add: run_defs)
  have h4: "?run1 = (Exited, fst (snd ?run1), fst (snd (snd ?run1)), snd (snd (snd ?run1)))"
    using e1 by (metis prod.collapse)
  have c1: "length (filter is_GetClientsForCall
      (logOf (queryWithConsistencyCheck ?q4 100 2000 None (example_queryFunc []) ())))
     \<le> maxFetchSeriesAttempts"
    using retry_loop_contract[where q="?q4" and minT=100 and maxT=2000 and shard=None
        and queryFunc="example_queryFunc []" and cs="()"] by blast
  have c2: "afterLoop (attempts_loop ?q0 (example_queryFunc []) ?kb () 100 2000 1
               (initial_vars ?kb) () []) =
          (Some (External ''no store-gateway instance left''), Some (initial_vars ?kb), (),
           [] @ [GetClientsForCall 1 (remainingBlocks (initial_vars ?kb))
                  (attemptedBlocks (initial_vars ?kb))])"
    using h2 retry_loop_contract[where q="?q0" and v="initial_vars ?kb"
         and err="''no store-gateway instance left''" and queryFunc="example_queryFunc []"
         and kb="?kb" and km="()" and minT=100 and maxT=2000 and cs="()" and tr="[]"]
    by blast
  have c4: "remainingBlocks (fst (snd ?run1)) \<noteq> []"
    using h4 retry_loop_contract[where q="?q1" and v="initial_vars ?kb"
         and queryFunc="example_queryFunc []"
         and kb="?kb" and km="()" and minT=100 and maxT=2000 and cs="()" and tr="[]"
         and v'="fst (snd ?run1)" and cs'="fst (snd (snd ?run1))"
         and tr'="snd (snd (snd ?run1))"]
    by blast
  have c5: "errorOf (afterLoop ?run1) = Some (StoreConsistencyCheckFailed [1])"
    by (simp add: run_defs)
  show ?thesis
    using c1 h2 c2 e1 c4 c5 by (simp add: errorOf_def)
qed

section \<open>Theorems: the attempted map\<close>

text \<open>
  What the update of the attempted map does to the entry of a block \<open>b\<close>: it appends
  the address of every pair of the assignment whose block is \<open>b\<close>, in order.
\<close>

lemma recordBlockIDs_apply:
  "recordBlockIDs addr bs att b = att b @ map (\<lambda>_. addr) (filter (\<lambda>x. x = b) bs)"
  by (induction bs arbitrary: att) auto

lemma recordAssignment_apply:
  "recordAssignment cl att b = att b @ map snd (filter (\<lambda>p. fst p = b) (assignment_pairs cl))"
proof (induction cl arbitrary: att)
  case Nil
  then show ?case by (simp add: assignment_pairs_def)
next
  case (Cons c cl)
  obtain addr bs where c: "c = (addr, bs)" by (cases c)
  have m: "map snd (filter (\<lambda>p. fst p = b) (map (\<lambda>b. (b, addr)) bs)) =
           map (\<lambda>_. addr) (filter (\<lambda>x. x = b) bs)"
    by (induction bs) auto
  have "recordAssignment (c # cl) att b = recordAssignment cl (recordBlockIDs addr bs att) b"
    by (simp add: c)
  also have "\<dots> = recordBlockIDs addr bs att b
                 @ map snd (filter (\<lambda>p. fst p = b) (assignment_pairs cl))"
    by (rule Cons.IH)
  also have "\<dots> = att b @ map snd (filter (\<lambda>p. fst p = b) (assignment_pairs (c # cl)))"
    using m by (simp add: c assignment_pairs_def recordBlockIDs_apply)
  finally show ?case .
qed

lemma recordClients_fields:
  "attemptedBlocks (recordClients cl v) = recordAssignment cl (attemptedBlocks v)"
  "resQueriedBlocks (recordClients cl v) = resQueriedBlocks v"
  "remainingBlocks (recordClients cl v) = remainingBlocks v"
  by (induction cl v rule: recordClients.induct) auto

lemma no_pair_twice_recordAssignment:
  assumes "no_pair_twice att" and "distinct (assignment_pairs cl)"
    and "\<forall>p \<in> set (assignment_pairs cl). snd p \<notin> set (att (fst p))"
  shows "no_pair_twice (recordAssignment cl att)"
  unfolding no_pair_twice_def
proof
  fix b
  let ?ps = "filter (\<lambda>p. fst p = b) (assignment_pairs cl)"
  have d1: "distinct (att b)" using assms(1) by (simp add: no_pair_twice_def)
  have "inj_on snd (set ?ps)" by (auto simp: inj_on_def prod_eq_iff)
  then have d2: "distinct (map snd ?ps)" using assms(2) by (simp add: distinct_map)
  have d3: "set (att b) \<inter> set (map snd ?ps) = {}" using assms(3) by auto
  show "distinct (recordAssignment cl att b)"
    unfolding recordAssignment_apply using d1 d2 d3 by simp
qed

lemma exclusions_follow_append:
  "exclusions_follow att (xs @ ys) =
     (exclusions_follow att xs \<and> exclusions_follow (replayed att xs) ys)"
  by (induction att xs rule: exclusions_follow.induct) auto

lemma replayed_append: "replayed att (xs @ ys) = replayed (replayed att xs) ys"
  by (induction att xs rule: replayed.induct) auto

lemma exclusions_append: "exclusions (xs @ ys) = exclusions xs @ exclusions ys"
  by (induction xs rule: exclusions.induct) auto


text \<open>
  The invariant of the loop: the entries of the attempted map are distinct, every map
  handed to the selector so far was distinct, and it was the map replayed from the log.
\<close>

lemma attempts_loop_attempted:
  assumes sel: "selector_respects_exclusion (stores_GetClientsFor q)"
      "selector_assigns_once (stores_GetClientsFor q)"
    and "no_pair_twice (attemptedBlocks v)"
    and "list_all no_pair_twice (exclusions tr)"
    and "exclusions_follow a0 tr"
    and "replayed a0 tr = attemptedBlocks v"
  shows "no_pair_twice
           (attemptedBlocks (varsOf (attempts_loop q queryFunc kb km minT maxT attempt v cs tr))) \<and>
         list_all no_pair_twice
           (exclusions (logOf (attempts_loop q queryFunc kb km minT maxT attempt v cs tr))) \<and>
         exclusions_follow a0 (logOf (attempts_loop q queryFunc kb km minT maxT attempt v cs tr))"
  using assms(3-6)
proof (induction attempt v cs tr rule: attempts_loop_induct_cases[where q=q and queryFunc=queryFunc
        and kb=kb and km=km and minT=minT and maxT=maxT])
  case (exhausted attempt v cs tr)
  then show ?case by (simp add: attempts_loop_exhausted logOf_def varsOf_def)
next
  case (selector_fails attempt v cs tr err)
  then show ?case
    by (simp add: attempts_loop_selector_fails logOf_def varsOf_def exclusions_append
        exclusions_follow_append)
next
  case (query_fails attempt v cs tr clients err cs')
  then show ?case
    by (simp add: attempts_loop_query_fails[where queryFunc=queryFunc and cs=cs]
        logOf_def varsOf_def exclusions_append exclusions_follow_append)
next
  case (complete attempt v cs tr clients queried cs' v')
  have d: "distinct (assignment_pairs clients)"
    using sel(2) complete(2) unfolding selector_assigns_once_def by blast
  have x: "\<forall>p \<in> set (assignment_pairs clients). snd p \<notin> set (attemptedBlocks v (fst p))"
    using sel(1) complete(2) unfolding selector_respects_exclusion_def by blast
  have n: "no_pair_twice (attemptedBlocks v')"
    unfolding complete(4) recordClients_fields
    using no_pair_twice_recordAssignment[OF _ d x] complete(6) by simp
  show ?case
    using complete n
    by (simp add: attempts_loop_complete[where queryFunc=queryFunc and cs=cs]
        logOf_def varsOf_def exclusions_append exclusions_follow_append)
next
  case (retry attempt v cs tr clients queried cs' v')
  have d: "distinct (assignment_pairs clients)"
    using sel(2) retry(2) unfolding selector_assigns_once_def by blast
  have x: "\<forall>p \<in> set (assignment_pairs clients). snd p \<notin> set (attemptedBlocks v (fst p))"
    using sel(1) retry(2) unfolding selector_respects_exclusion_def by blast
  have a: "attemptedBlocks v' = recordAssignment clients (attemptedBlocks v)"
    unfolding retry(4) recordClients_fields by simp
  have n: "no_pair_twice (attemptedBlocks v')"
    unfolding a using no_pair_twice_recordAssignment[OF _ d x] retry(7) by simp
  show ?case
    unfolding attempts_loop_retry[where queryFunc=queryFunc and cs=cs, OF retry(1-5)]
    apply (rule retry(6))
    using n retry(7-10) a
    by (simp_all add: exclusions_append exclusions_follow_append replayed_append)
qed

lemma filterKnownBlocks_log_shape:
  assumes "filterKnownBlocks parse shard kb = Inr (fb, fl)"
  shows "fl = [] \<or> (\<exists>n. fl = [IncompatibleShardAdd n])"
  using assms
  by (auto simp: filterKnownBlocks_def split: option.splits if_splits sum.splits prod.splits)

lemma varsOf_afterLoop: "varsOf (afterLoop r) = Some (varsOf r)"
  by (cases r rule: prod_cases4) (auto simp: afterLoop_def varsOf_def split: loop_end.splits)

text \<open>
  Claim C6, as amended. Assume that the replica selector never assigns a block to a
  replica that the exclusion map it is given lists for that block, and that no
  assignment it returns lists the same (block, replica) pair twice. Then, for every
  request: the attempted map at the end of the request records no pair twice; every
  exclusion map handed to the selector records no pair twice; every call of the
  selector is given exactly the map built from the assignments of the attempts before
  it; and the update after an attempt appends to the entry of each block the address
  of every client that was assigned the block, whatever the client hinted.
\<close>

theorem attempted_pairs_distinct:
  assumes "selector_respects_exclusion (stores_GetClientsFor q)"
    and "selector_assigns_once (stores_GetClientsFor q)"
  shows "(\<forall>v. varsOf (queryWithConsistencyCheck q minT maxT shard queryFunc cs) = Some v \<longrightarrow>
             no_pair_twice (attemptedBlocks v)) \<and>
         list_all no_pair_twice
           (exclusions (logOf (queryWithConsistencyCheck q minT maxT shard queryFunc cs))) \<and>
         exclusions_follow (\<lambda>_. [])
           (logOf (queryWithConsistencyCheck q minT maxT shard queryFunc cs)) \<and>
         attemptedBlocks (recordClients cl w) b =
           attemptedBlocks w b @ map snd (filter (\<lambda>p. fst p = b) (assignment_pairs cl))"
proof -
  have last: "attemptedBlocks (recordClients cl w) b =
           attemptedBlocks w b @ map snd (filter (\<lambda>p. fst p = b) (assignment_pairs cl))"
    by (simp add: recordClients_fields recordAssignment_apply)
  have main: "(\<forall>v. varsOf (queryWithConsistencyCheck q minT maxT shard queryFunc cs) = Some v \<longrightarrow>
             no_pair_twice (attemptedBlocks v)) \<and>
         list_all no_pair_twice
           (exclusions (logOf (queryWithConsistencyCheck q minT maxT shard queryFunc cs))) \<and>
         exclusions_follow (\<lambda>_. [])
           (logOf (queryWithConsistencyCheck q minT maxT shard queryFunc cs))"
  proof (cases rule: queryWithConsistencyCheck_cases[where q=q and maxT=maxT and minT=minT
      and shard=shard])
    case empty_range
    show ?thesis
      unfolding queryWithConsistencyCheck_empty_range[OF empty_range]
      by (simp add: logOf_def varsOf_def)
  next
    case (finder_fails err)
    show ?thesis
      unfolding queryWithConsistencyCheck_finder_fails[OF finder_fails]
      by (simp add: logOf_def varsOf_def)
  next
    case (no_blocks km)
    show ?thesis
      unfolding queryWithConsistencyCheck_no_blocks[OF no_blocks]
      by (simp add: logOf_def varsOf_def)
  next
    case (filter_panics kb km p)
    show ?thesis
      unfolding queryWithConsistencyCheck_filter_panics[OF filter_panics]
      by (simp add: logOf_def varsOf_def)
  next
    case (attempts kb km fb fl)
    let ?tr = "[GetBlocksCall minT (clampMaxT q maxT), BlocksFoundAdd (length kb)] @ fl
                 @ [BlocksQueriedAdd (length fb)]"
    have i1: "no_pair_twice (attemptedBlocks (initial_vars fb))"
      by (simp add: initial_vars_def no_pair_twice_def)
    have i2: "list_all no_pair_twice (exclusions ?tr)"
      using filterKnownBlocks_log_shape[OF attempts(4)] by auto
    have i3: "exclusions_follow (\<lambda>_. []) ?tr"
      using filterKnownBlocks_log_shape[OF attempts(4)] by auto
    have i4: "replayed (\<lambda>_. []) ?tr = attemptedBlocks (initial_vars fb)"
      using filterKnownBlocks_log_shape[OF attempts(4)] by (auto simp: initial_vars_def)
    show ?thesis
      unfolding queryWithConsistencyCheck_attempts[OF attempts] afterLoop_log varsOf_afterLoop
      using attempts_loop_attempted[OF assms i1 i2 i3 i4, of queryFunc fb km minT
          "clampMaxT q maxT" 1 cs]
      by simp
  qed
  show ?thesis using main last by blast
qed


lemma example_selector_Inr:
  assumes "example_selector replicas attempt uid blockIDs exclude = Inr cl"
  shows "\<exists>r. cl = [(r, remdups blockIDs)] \<and> (\<forall>b \<in> set blockIDs. r \<notin> set (exclude b))"
  using assms
  by (auto simp: example_selector_def find_Some_iff list_all_iff split: option.splits)

lemma example_appending_selector_Inr:
  assumes "example_appending_selector replicas attempt uid blockIDs exclude = Inr cl"
  shows "\<exists>r. cl = [(r, blockIDs)] \<and> (\<forall>b \<in> set blockIDs. r \<notin> set (exclude b))"
  using assms
  by (auto simp: example_appending_selector_def find_Some_iff list_all_iff split: option.splits)

lemma example_selector_respects_exclusion:
  "selector_respects_exclusion (example_selector replicas)"
  unfolding selector_respects_exclusion_def
  by (auto dest!: example_selector_Inr simp: assignment_pairs_def)

lemma example_selector_assigns_once:
  "selector_assigns_once (example_selector replicas)"
  unfolding selector_assigns_once_def
  by (auto dest!: example_selector_Inr simp: assignment_pairs_def distinct_map inj_on_def)

lemma example_appending_selector_respects_exclusion:
  "selector_respects_exclusion (example_appending_selector replicas)"
  unfolding selector_respects_exclusion_def
  by (auto dest!: example_appending_selector_Inr simp: assignment_pairs_def)

text \<open>
  Witness for C6: blocks 1 and 2, replica \<open>A\<close> has block 1 and replica \<open>B\<close> has
  block 2. Attempt 1 assigns both blocks to \<open>A\<close>, which hints block 1 only; attempt 2
  assigns block 2 to \<open>B\<close>. The attempted map ends as 1 to \<open>[A]\<close>, 2 to \<open>[A, B]\<close>.
\<close>

theorem attempted_pairs_distinct_witness:
  "selector_respects_exclusion (stores_GetClientsFor
      (example_querier [''A'', ''B'']
         [\<lparr>ID = 1, CompactorShardID = []\<rparr>, \<lparr>ID = 2, CompactorShardID = []\<rparr>] 0)) \<and>
   selector_assigns_once (stores_GetClientsFor
      (example_querier [''A'', ''B'']
         [\<lparr>ID = 1, CompactorShardID = []\<rparr>, \<lparr>ID = 2, CompactorShardID = []\<rparr>] 0)) \<and>
   errorOf (queryWithConsistencyCheck
      (example_querier [''A'', ''B'']
         [\<lparr>ID = 1, CompactorShardID = []\<rparr>, \<lparr>ID = 2, CompactorShardID = []\<rparr>] 0)
      100 2000 None (example_queryFunc [(''A'', 1), (''B'', 2)]) ()) = None \<and>
   map_option (\<lambda>v. (attemptedBlocks v 1, attemptedBlocks v 2))
     (varsOf (queryWithConsistencyCheck
      (example_querier [''A'', ''B'']
         [\<lparr>ID = 1, CompactorShardID = []\<rparr>, \<lparr>ID = 2, CompactorShardID = []\<rparr>] 0)
      100 2000 None (example_queryFunc [(''A'', 1), (''B'', 2)]) ()))
     = Some ([''A''], [''A'', ''B'']) \<and>
   no_pair_twice (attemptedBlocks (the (varsOf (queryWithConsistencyCheck
      (example_querier [''A'', ''B'']
         [\<lparr>ID = 1, CompactorShardID = []\<rparr>, \<lparr>ID = 2, CompactorShardID = []\<rparr>] 0)
      100 2000 None (example_queryFunc [(''A'', 1), (''B'', 2)]) ())))) \<and>
   list_all no_pair_twice (exclusions (logOf (queryWithConsistencyCheck
      (example_querier [''A'', ''B'']
         [\<lparr>ID = 1, CompactorShardID = []\<rparr>, \<lparr>ID = 2, CompactorShardID = []\<rparr>] 0)
      100 2000 None (example_queryFunc [(''A'', 1), (''B'', 2)]) ()))) \<and>
   exclusions_follow (\<lambda>_. []) (logOf (queryWithConsistencyCheck
      (example_querier [''A'', ''B'']
         [\<lparr>ID = 1, CompactorShardID = []\<rparr>, \<lparr>ID = 2, CompactorShardID = []\<rparr>] 0)
      100 2000 None (example_queryFunc [(''A'', 1), (''B'', 2)]) ()))"
proof -
  let ?q = "example_querier [''A'', ''B'']
         [\<lparr>ID = 1, CompactorShardID = []\<rparr>, \<lparr>ID = 2, CompactorShardID = []\<rparr>] 0"
  let ?R = "queryWithConsistencyCheck ?q 100 2000 None
              (example_queryFunc [(''A'', 1), (''B'', 2)]) ()"
  have h1: "selector_respects_exclusion (stores_GetClientsFor ?q)"
    by (simp add: example_querier_def example_selector_respects_exclusion)
  have h2: "selector_assigns_once (stores_GetClientsFor ?q)"
    by (simp add: example_querier_def example_selector_assigns_once)
  have e: "errorOf ?R = None" by (simp add: run_defs)
  have m: "map_option (\<lambda>v. (attemptedBlocks v 1, attemptedBlocks v 2)) (varsOf ?R)
            = Some ([''A''], [''A'', ''B''])"
    by (simp add: run_defs)
  then obtain v where v: "varsOf ?R = Some v" by auto
  show ?thesis
    using h1 h2 e m v
      attempted_pairs_distinct[OF h1 h2, of 100 2000 None
        "example_queryFunc [(''A'', 1), (''B'', 2)]" "()"]
    by simp
qed

text \<open>
  Counterexample to C6 as stated: the selector hands the requested block IDs, as they
  are, to the first replica not excluded for any of them, so it respects the exclusion
  map. The block finder lists block 1 twice; the selector assigns \<open>[1, 1]\<close> to \<open>A\<close>;
  the request succeeds at the first attempt and the attempted map records the pair
  (1, \<open>A\<close>) twice.
\<close>

theorem attempted_pair_twice_counterexample:
  "selector_respects_exclusion (stores_GetClientsFor
      ((example_querier [''A'']
          [\<lparr>ID = 1, CompactorShardID = []\<rparr>, \<lparr>ID = 1, CompactorShardID = []\<rparr>] 0)
       \<lparr>stores_GetClientsFor := example_appending_selector [''A'']\<rparr>)) \<and>
   errorOf (queryWithConsistencyCheck
      ((example_querier [''A'']
          [\<lparr>ID = 1, CompactorShardID = []\<rparr>, \<lparr>ID = 1, CompactorShardID = []\<rparr>] 0)
       \<lparr>stores_GetClientsFor := example_appending_selector [''A'']\<rparr>)
      100 2000 None (example_queryFunc [(''A'', 1)]) ()) = None \<and>
   map_option (\<lambda>v. attemptedBlocks v 1)
     (varsOf (queryWithConsistencyCheck
      ((example_querier [''A'']
          [\<lparr>ID = 1, CompactorShardID = []\<rparr>, \<lparr>ID = 1, CompactorShardID = []\<rparr>] 0)
       \<lparr>stores_GetClientsFor := example_appending_selector [''A'']\<rparr>)
      100 2000 None (example_queryFunc [(''A'', 1)]) ()))
     = Some [''A'', ''A''] \<and>
   \<not> no_pair_twice (attemptedBlocks (the (varsOf (queryWithConsistencyCheck
      ((example_querier [''A'']
          [\<lparr>ID = 1, CompactorShardID = []\<rparr>, \<lparr>ID = 1, CompactorShardID = []\<rparr>] 0)
       \<lparr>stores_GetClientsFor := example_appending_selector [''A'']\<rparr>)
      100 2000 None (example_queryFunc [(''A'', 1)]) ()))))"
proof -
  let ?q = "(example_querier [''A'']
          [\<lparr>ID = 1, CompactorShardID = []\<rparr>, \<lparr>ID = 1, CompactorShardID = []\<rparr>] 0)
       \<lparr>stores_GetClientsFor := example_appending_selector [''A'']\<rparr>"
  let ?R = "queryWithConsistencyCheck ?q 100 2000 None (example_queryFunc [(''A'', 1)]) ()"
  have h1: "selector_respects_exclusion (stores_GetClientsFor ?q)"
    by (simp add: example_appending_selector_respects_exclusion)
  have e: "errorOf ?R = None" by (simp add: run_defs example_appending_selector_def)
  have m: "map_option (\<lambda>v. attemptedBlocks v 1) (varsOf ?R) = Some [''A'', ''A'']"
    by (simp add: run_defs example_appending_selector_def)
  then obtain v where v: "varsOf ?R = Some v" and a: "attemptedBlocks v 1 = [''A'', ''A'']"
    by auto
  have "\<not> distinct (attemptedBlocks v 1)" unfolding a by simp
  then have n: "\<not> no_pair_twice (attemptedBlocks (the (varsOf ?R)))"
    unfolding v no_pair_twice_def by auto
  show ?thesis using h1 e m n by simp
qed

section \<open>Theorems: rule group ownership\<close>

lemma sum32a_Write_foldl:
  "sum32a_Write hash data = foldl (\<lambda>h c. (h XOR of_char c) * 16777619) hash data"
  by (induction data arbitrary: hash) (simp_all add: prime32_def)

text \<open>Writing piece after piece hashes the concatenation.\<close>

lemma sum32a_Write_append:
  "sum32a_Write (sum32a_Write hash xs) ys = sum32a_Write hash (xs @ ys)"
  by (simp add: sum32a_Write_foldl)

lemma tokenForGroup_fnv32a:
  "tokenForGroup g = fnv32a (User g @ ''/'' @ Namespace g @ ''/'' @ Name g)"
  by (simp add: tokenForGroup_def fnv32a_def sum32a_Write_foldl New32a_def offset32_def
      Sum32_def sep_def)

text \<open>The hash on the test vectors of FNV-1a (32 bit) for \<open>a\<close> and \<open>foobar\<close>.\<close>

lemma fnv32a_test_vectors:
  "fnv32a ''a'' = 0xE40C292C" "fnv32a ''foobar'' = 0xBF9CF968"
  by (simp_all add: fnv32a_def)

text \<open>
  Claim C7. For every rule group and every replica address: the token of the group is
  the FNV-1a hash of \<open>tenant / namespace / name\<close>, and when the ring lookup at that
  token returns a replication set with first instance \<open>primary\<close>, the function returns
  (without error) whether the address of \<open>primary\<close> equals the replica's address; so
  the group is owned if and only if the two addresses are equal.
\<close>

theorem instanceOwnsRuleGroup_primary:
  assumes "r (fnv32a (User g @ ''/'' @ Namespace g @ ''/'' @ Name g)) = Inr rlrs"
    and "Instances rlrs = primary # others"
  shows "tokenForGroup g = fnv32a (User g @ ''/'' @ Namespace g @ ''/'' @ Name g) \<and>
         instanceOwnsRuleGroup r g instanceAddr = Inr (Addr primary = instanceAddr) \<and>
         ((instanceOwnsRuleGroup r g instanceAddr = Inr True) = (Addr primary = instanceAddr))"
proof -
  have t: "tokenForGroup g = fnv32a (User g @ ''/'' @ Namespace g @ ''/'' @ Name g)"
    by (rule tokenForGroup_fnv32a)
  have l: "r (tokenForGroup g) = Inr rlrs" unfolding t by (rule assms(1))
  have o: "instanceOwnsRuleGroup r g instanceAddr = Inr (Addr primary = instanceAddr)"
    using l assms(2) by (simp add: instanceOwnsRuleGroup_def)
  show ?thesis using t o by simp
qed

text \<open>
  Witness for C7: the group \<open>tenant-1 / rules / cpu\<close> on a ring whose lookup answers
  with the instances at 10.0.0.1 and 10.0.0.2; the replica at 10.0.0.1 owns the group,
  the replica at 10.0.0.2 does not.
\<close>

theorem instanceOwnsRuleGroup_primary_witness:
  "(\<lambda>t. Inr \<lparr>Instances = [\<lparr>Addr = ''10.0.0.1''\<rparr>, \<lparr>Addr = ''10.0.0.2''\<rparr>]\<rparr>)
      (fnv32a (User \<lparr>User = ''tenant-1'', Namespace = ''rules'', Name = ''cpu''\<rparr> @ ''/'' @
               Namespace \<lparr>User = ''tenant-1'', Namespace = ''rules'', Name = ''cpu''\<rparr> @ ''/'' @
               Name \<lparr>User = ''tenant-1'', Namespace = ''rules'', Name = ''cpu''\<rparr>))
     = (Inr \<lparr>Instances = [\<lparr>Addr = ''10.0.0.1''\<rparr>, \<lparr>Addr = ''10.0.0.2''\<rparr>]\<rparr>
          :: string + ReplicationSet) \<and>
   Instances \<lparr>Instances = [\<lparr>Addr = ''10.0.0.1''\<rparr>, \<lparr>Addr = ''10.0.0.2''\<rparr>]\<rparr>
     = \<lparr>Addr = ''10.0.0.1''\<rparr> # [\<lparr>Addr = ''10.0.0.2''\<rparr>] \<and>
   instanceOwnsRuleGroup
     (\<lambda>t. Inr \<lparr>Instances = [\<lparr>Addr = ''10.0.0.1''\<rparr>, \<lparr>Addr = ''10.0.0.2''\<rparr>]\<rparr>
            :: string + ReplicationSet)
     \<lparr>User = ''tenant-1'', Namespace = ''rules'', Name = ''cpu''\<rparr> ''10.0.0.1'' = Inr True \<and>
   instanceOwnsRuleGroup
     (\<lambda>t. Inr \<lparr>Instances = [\<lparr>Addr = ''10.0.0.1''\<rparr>, \<lparr>Addr = ''10.0.0.2''\<rparr>]\<rparr>
            :: string + ReplicationSet)
     \<lparr>User = ''tenant-1'', Namespace = ''rules'', Name = ''cpu''\<rparr> ''10.0.0.2'' = Inr False"
proof -
  let ?set = "\<lparr>Instances = [\<lparr>Addr = ''10.0.0.1''\<rparr>, \<lparr>Addr = ''10.0.0.2''\<rparr>]\<rparr>"
  let ?r = "(\<lambda>t. Inr ?set) :: uint32 \<Rightarrow> string + ReplicationSet"
  let ?g = "\<lparr>User = ''tenant-1'', Namespace = ''rules'', Name = ''cpu''\<rparr>"
  have h1: "?r (fnv32a (User ?g @ ''/'' @ Namespace ?g @ ''/'' @ Name ?g)) = Inr ?set"
    by simp
  have h2: "Instances ?set = \<lparr>Addr = ''10.0.0.1''\<rparr> # [\<lparr>Addr = ''10.0.0.2''\<rparr>]" by simp
  show ?thesis
    using instanceOwnsRuleGroup_primary[OF h1 h2, where instanceAddr="''10.0.0.1''"]
      instanceOwnsRuleGroup_primary[OF h1 h2, where instanceAddr="''10.0.0.2''"]
    by simp
qed

text \<open>
  Outside the claim: a failed ring lookup is returned wrapped, and a replication set
  without instances makes the index expression panic.
\<close>

lemma instanceOwnsRuleGroup_lookup_fails:
  "r (tokenForGroup g) = Inl err \<Longrightarrow>
   instanceOwnsRuleGroup r g instanceAddr =
     Inl (Wrapped ''error reading ring to verify rule group ownership'' err)"
  by (simp add: instanceOwnsRuleGroup_def)

lemma instanceOwnsRuleGroup_empty_set_panics:
  "r (tokenForGroup g) = Inr rlrs \<Longrightarrow> Instances rlrs = [] \<Longrightarrow>
   instanceOwnsRuleGroup r g instanceAddr = Inl (Panic IndexOutOfRange)"
  by (simp add: instanceOwnsRuleGroup_def)


section \<open>Theorems: the clamp of label queries\<close>

lemma int64_id: "is_int64 x \<Longrightarrow> int64 x = x"
  by (simp add: int64_def is_int64_def)

lemma int64_cases:
  assumes "- (2 ^ 64) \<le> x" "x < 2 ^ 63"
  shows "int64 x = x \<or> int64 x = x + 2 ^ 64"
proof (cases "- (2 ^ 63) \<le> x")
  case True
  then show ?thesis using assms by (simp add: int64_def)
next
  case False
  have "(x + 2 ^ 63) mod 2 ^ 64 = x + 2 ^ 63 + 2 ^ 64"
    using False assms by (intro int_mod_pos_eq[of _ _ "-1"]) auto
  then show ?thesis by (simp add: int64_def)
qed

lemma sdiv_neg_tick:
  assumes "0 \<le> (L::int)"
  shows "(- L) sdiv minimumTick = - (L div minimumTick)"
  using assms by (simp add: signed_divide_int_def minimumTick_def sgn_if)

lemma is_int64_int64: "is_int64 (int64 x)"
proof -
  have p: "(2::int) ^ 64 = 2 * 2 ^ 63" by simp
  have "0 \<le> (x + 2 ^ 63) mod (2 ^ 64 :: int)" "(x + 2 ^ 63) mod (2 ^ 64 :: int) < 2 ^ 64"
    by simp_all
  then show ?thesis unfolding int64_def is_int64_def using p by linarith
qed

lemma div_tick_bounds:
  assumes "0 \<le> (L::int)"
  shows "0 \<le> L div 1000000" "L div 1000000 \<le> L"
  using assms zdiv_mono2[of L 1 1000000] by (simp_all add: pos_imp_zdiv_nonneg_iff)

lemma clampLabelsMinT_value:
  assumes "is_int64 (querier_minT q)" "is_int64 (querier_maxT q)"
    and "0 \<le> limits_MaxLabelsQueryLength q (userID q)"
    and "is_int64 (limits_MaxLabelsQueryLength q (userID q))"
  shows "clampLabelsMinT q =
           max (querier_minT q)
               (int64 (querier_maxT q - limits_MaxLabelsQueryLength q (userID q) div 1000000))"
    and "querier_maxT q - clampLabelsMinT q \<le> limits_MaxLabelsQueryLength q (userID q) div 1000000"
proof -
  define L where "L = limits_MaxLabelsQueryLength q (userID q)"
  define Lms where "Lms = L div 1000000"
  have L: "0 \<le> L" "L < 2 ^ 63" using assms(3,4) by (simp_all add: L_def is_int64_def)
  have Lms: "0 \<le> Lms" "Lms \<le> L" unfolding Lms_def using div_tick_bounds[OF L(1)] by simp_all
  have n1: "int64 (- L) = - L" using L by (intro int64_id) (simp add: is_int64_def)
  have n2: "(- L) sdiv minimumTick = - Lms"
    using sdiv_neg_tick[OF L(1)] by (simp add: Lms_def minimumTick_def)
  have n3: "int64 (- Lms) = - Lms" using Lms L by (intro int64_id) (simp add: is_int64_def)
  have add: "Time_Add (querier_maxT q) (int64 (- L)) = int64 (querier_maxT q - Lms)"
    unfolding Time_Add_def n1 n2 n3 by simp
  have r: "is_int64 (max (querier_minT q) (int64 (querier_maxT q - Lms)))"
    using assms(1) is_int64_int64[of "querier_maxT q - Lms"] by (simp add: max_def)
  show v: "clampLabelsMinT q =
           max (querier_minT q)
               (int64 (querier_maxT q - limits_MaxLabelsQueryLength q (userID q) div 1000000))"
    using int64_id[OF r] add
    by (simp add: clampLabelsMinT_def clampTime_def Let_def L_def[symmetric] Lms_def[symmetric])
  have b: "- (2 ^ 64) \<le> querier_maxT q - Lms" "querier_maxT q - Lms < 2 ^ 63"
    using assms(2) Lms L by (simp_all add: is_int64_def)
  have "querier_maxT q - Lms \<le> int64 (querier_maxT q - Lms)"
    using int64_cases[OF b] by auto
  then show "querier_maxT q - clampLabelsMinT q
          \<le> limits_MaxLabelsQueryLength q (userID q) div 1000000"
    unfolding v L_def[symmetric] Lms_def[symmetric] by simp
qed


text \<open>
  The block finder is called at most once in a request, before the loop, with the
  range that \<^verbatim>\<open>queryWithConsistencyCheck\<close> received (the max time clamped).
\<close>

lemma attempts_loop_finder_calls:
  "filter is_GetBlocksCall (logOf (attempts_loop q queryFunc kb km minT maxT attempt v cs tr))
   = filter is_GetBlocksCall tr"
proof (induction attempt v cs tr rule: attempts_loop_induct_cases[where q=q and queryFunc=queryFunc
        and kb=kb and km=km and minT=minT and maxT=maxT])
  case (exhausted attempt v cs tr)
  then show ?case by (simp add: attempts_loop_exhausted logOf_def)
next
  case (selector_fails attempt v cs tr err)
  then show ?case by (simp add: attempts_loop_selector_fails logOf_def)
next
  case (query_fails attempt v cs tr clients err cs')
  then show ?case
    by (simp add: attempts_loop_query_fails[where queryFunc=queryFunc and cs=cs] logOf_def)
next
  case (complete attempt v cs tr clients queried cs' v')
  then show ?case
    by (simp add: attempts_loop_complete[where queryFunc=queryFunc and cs=cs] logOf_def)
next
  case (retry attempt v cs tr clients queried cs' v')
  show ?case
    unfolding attempts_loop_retry[where queryFunc=queryFunc and cs=cs, OF retry(1-5)]
    using retry(6) by simp
qed

lemma queryWithConsistencyCheck_finder_calls:
  "filter is_GetBlocksCall (logOf (queryWithConsistencyCheck q minT maxT shard queryFunc cs)) =
     (if queryStoreAfter q > 0 \<and> clampMaxT q maxT < minT then []
      else [GetBlocksCall minT (clampMaxT q maxT)])"
proof (cases rule: queryWithConsistencyCheck_cases[where q=q and maxT=maxT and minT=minT
      and shard=shard])
  case empty_range
  show ?thesis
    unfolding queryWithConsistencyCheck_empty_range[OF empty_range]
    using empty_range by (simp add: logOf_def)
next
  case (finder_fails err)
  show ?thesis
    unfolding queryWithConsistencyCheck_finder_fails[OF finder_fails]
    using finder_fails(1) by (simp add: logOf_def)
next
  case (no_blocks km)
  show ?thesis
    unfolding queryWithConsistencyCheck_no_blocks[OF no_blocks]
    using no_blocks(1) by (simp add: logOf_def)
next
  case (filter_panics kb km p)
  show ?thesis
    unfolding queryWithConsistencyCheck_filter_panics[OF filter_panics]
    using filter_panics(1) by (simp add: logOf_def)
next
  case (attempts kb km fb fl)
  show ?thesis
    unfolding queryWithConsistencyCheck_attempts[OF attempts] afterLoop_log
      attempts_loop_finder_calls
    using attempts(1) filterKnownBlocks_log(3)[OF attempts(4)] by simp
qed

lemma LabelNames_log:
  "snd (LabelNames q fetch merge w) =
     logOf (queryWithConsistencyCheck q (clampLabelsMinT q) (querier_maxT q) None
              (labelsQueryFunc fetch) ([], [], w))"
  by (auto simp: LabelNames_def logOf_def Let_def split: prod.splits option.splits)

lemma LabelValues_log:
  "snd (LabelValues q name fetch merge w) =
     logOf (queryWithConsistencyCheck q (clampLabelsMinT q) (querier_maxT q) None
              (labelsQueryFunc (fetch name)) ([], [], w))"
  by (auto simp: LabelValues_def logOf_def Let_def split: prod.splits option.splits)

lemma clampMaxT_le: "clampMaxT q maxT \<le> maxT"
  by (simp add: clampMaxT_def Min64_def)

text \<open>
  Claim C8. In \<^verbatim>\<open>LabelNames\<close> and \<^verbatim>\<open>LabelValues\<close>, with a configured length
  \<open>L \<ge> 0\<close> (nanoseconds; \<open>L div 1000000\<close> milliseconds): the new \<open>minT\<close> is the
  maximum of \<open>minT\<close> and \<open>maxT\<close> minus the length (the subtraction wraps around in 64
  bits); the window from it to the original \<open>maxT\<close> is at most the length wide; and
  the block finder, when it is called, is called once with that new \<open>minT\<close> and a max
  time that is \<open>maxT\<close> or, under \<open>queryStoreAfter\<close>, less. \<^verbatim>\<open>clampTime\<close> is modelled
  from the specification.
\<close>

theorem labels_query_clamp:
  assumes "is_int64 (querier_minT q)" and "is_int64 (querier_maxT q)"
    and "0 \<le> limits_MaxLabelsQueryLength q (userID q)"
    and "is_int64 (limits_MaxLabelsQueryLength q (userID q))"
  shows "clampLabelsMinT q =
           max (querier_minT q)
               (int64 (querier_maxT q - limits_MaxLabelsQueryLength q (userID q) div 1000000)) \<and>
         querier_maxT q - clampLabelsMinT q
           \<le> limits_MaxLabelsQueryLength q (userID q) div 1000000 \<and>
         clampMaxT q (querier_maxT q) \<le> querier_maxT q \<and>
         filter is_GetBlocksCall (snd (LabelNames q fetchNames merge w)) =
           (if queryStoreAfter q > 0 \<and> clampMaxT q (querier_maxT q) < clampLabelsMinT q then []
            else [GetBlocksCall (clampLabelsMinT q) (clampMaxT q (querier_maxT q))]) \<and>
         filter is_GetBlocksCall (snd (LabelValues q name fetchValues merge w)) =
           (if queryStoreAfter q > 0 \<and> clampMaxT q (querier_maxT q) < clampLabelsMinT q then []
            else [GetBlocksCall (clampLabelsMinT q) (clampMaxT q (querier_maxT q))])"
  using clampLabelsMinT_value[OF assms] clampMaxT_le[of q "querier_maxT q"]
  unfolding LabelNames_log LabelValues_log queryWithConsistencyCheck_finder_calls
  by simp

text \<open>
  Witness for C8: a label query from 1000 to 2000 with a length of 500 ms is clamped
  to start at 1500, and the block finder is asked for the range 1500 to 2000.
\<close>

theorem labels_query_clamp_witness:
  "is_int64 (querier_minT (example_querier [''A''] [\<lparr>ID = 1, CompactorShardID = []\<rparr>] 0)) \<and>
   is_int64 (querier_maxT (example_querier [''A''] [\<lparr>ID = 1, CompactorShardID = []\<rparr>] 0)) \<and>
   0 \<le> limits_MaxLabelsQueryLength (example_querier [''A''] [\<lparr>ID = 1, CompactorShardID = []\<rparr>] 0)
         (userID (example_querier [''A''] [\<lparr>ID = 1, CompactorShardID = []\<rparr>] 0)) \<and>
   is_int64 (limits_MaxLabelsQueryLength
         (example_querier [''A''] [\<lparr>ID = 1, CompactorShardID = []\<rparr>] 0)
         (userID (example_querier [''A''] [\<lparr>ID = 1, CompactorShardID = []\<rparr>] 0))) \<and>
   clampLabelsMinT (example_querier [''A''] [\<lparr>ID = 1, CompactorShardID = []\<rparr>] 0) = 1500 \<and>
   filter is_GetBlocksCall
     (snd (LabelNames (example_querier [''A''] [\<lparr>ID = 1, CompactorShardID = []\<rparr>] 0)
        (\<lambda>w cl minT maxT. (Inr ([[''job'']], [], concat (map snd cl)), w)) concat ()))
     = [GetBlocksCall 1500 2000] \<and>
   filter is_GetBlocksCall
     (snd (LabelValues (example_querier [''A''] [\<lparr>ID = 1, CompactorShardID = []\<rparr>] 0) ''job''
        (\<lambda>name w cl minT maxT. (Inr ([[''api'']], [], concat (map snd cl)), w)) concat ()))
     = [GetBlocksCall 1500 2000]"
proof -
  let ?q = "example_querier [''A''] [\<lparr>ID = 1, CompactorShardID = []\<rparr>] 0"
  have h1: "is_int64 (querier_minT ?q)" by (simp add: example_querier_def is_int64_def)
  have h2: "is_int64 (querier_maxT ?q)" by (simp add: example_querier_def is_int64_def)
  have h3: "0 \<le> limits_MaxLabelsQueryLength ?q (userID ?q)" by (simp add: example_querier_def)
  have h4: "is_int64 (limits_MaxLabelsQueryLength ?q (userID ?q))"
    by (simp add: example_querier_def is_int64_def)
  have v: "max (querier_minT ?q)
             (int64 (querier_maxT ?q - limits_MaxLabelsQueryLength ?q (userID ?q) div 1000000))
           = 1500"
    by (simp add: example_querier_def int64_def)
  have c: "clampMaxT ?q (querier_maxT ?q) = 2000" "\<not> queryStoreAfter ?q > 0"
    by (simp_all add: example_querier_def clampMaxT_def)
  show ?thesis
    using h1 h2 h3 h4
      labels_query_clamp[OF h1 h2 h3 h4,
        where fetchNames="\<lambda>w cl minT maxT. (Inr ([[''job'']], [], concat (map snd cl)), w)"
          and fetchValues="\<lambda>name w cl minT maxT. (Inr ([[''api'']], [], concat (map snd cl)), w)"
          and merge=concat and w="()" and name="''job''"]
    unfolding v c by simp
qed

section \<open>Theorems: fetching series from the store-gateways\<close>

subsection \<open>Arithmetic of the chunk counter\<close>


lemma joined_Nil [simp]: "joined ([], [], []) b = b"
  by (cases b) (simp add: joined_def)

lemma joined_Nil_right [simp]: "joined my ([], [], []) = my"
  by (cases my) (simp add: joined_def)




subsection \<open>One step of a goroutine\<close>

text \<open>
  When the limiter is silent and the chunks stay within the budget, handling a response
  whose hints can be decoded raises no error: the response joins what the goroutine
  holds, the accumulators of the group are untouched, and the counter grows by the
  chunks of the response.
\<close>

lemma countChunksAndBytes_single:
  "countChunksAndBytes [s] = (length (Chunks s), sum_list (Chunks s))"
  by simp





subsection \<open>Schedules\<close>



text \<open>\<^verbatim>\<open>g.Wait()\<close>: after the completion every goroutine has returned.\<close>

lemma task_step_Returned [simp]:
  "task_step env n sp minT maxT matchers mx lf Returned_task g = (Returned_task, g)"
  by (simp add: task_step_def)





subsection \<open>The result of a fetch in which only streams fail\<close>







lemmas fetch_defs = selectSorted_def selectQueryFunc_def fetchSeriesFromStores_def
  completion_def steps_left_def task_step_def handleResponse_def storeResult_def
  group_fail_def createSeriesRequest_def example_env_def flaky_env_def





text \<open>
  The same fetch evaluated: the chunk of the broken stream has been counted although
  its series is discarded. In a whole request for block 1, the block is assigned to
  \<open>A\<close>, then to \<open>B\<close>, then to \<open>C\<close>, whose answer is the result.
\<close>

lemma flaky_fetch:
  "fetchSeriesFromStores flaky_env 0 [Run 0, Run 2, Run 1, Run 0, Run 0, Run 2]
       \<lparr>Start = 1000, End = 2000, Func = []\<rparr> [(''A'', [1]), (''B'', [2]), (''C'', [3])]
       1000 2000 ''up'' 10 10 ()
   = (Inr ([[\<lparr>PromLabels = [(''job'', ''api'')], Chunks = [100]\<rparr>]], [3], [], 2), ())"
  by (simp add: fetch_defs upt_rec word_sless_alt)

lemma flaky_select:
  "fst (selectSorted (example_querier [''A'', ''B'', ''C''] [\<lparr>ID = 1, CompactorShardID = []\<rparr>] 0)
         flaky_env (\<lambda>n. []) \<lparr>Start = 1000, End = 2000, Func = []\<rparr> ''up'' ())
     = Inr ([[\<lparr>PromLabels = [(''job'', ''api'')], Chunks = [100]\<rparr>]], []) \<and>
   filter is_QueryFuncCall
     (snd (snd (selectSorted
        (example_querier [''A'', ''B'', ''C''] [\<lparr>ID = 1, CompactorShardID = []\<rparr>] 0)
        flaky_env (\<lambda>n. []) \<lparr>Start = 1000, End = 2000, Func = []\<rparr> ''up'' ())))
     = [QueryFuncCall 1 [(''A'', [1])] 1000 2000, QueryFuncCall 2 [(''B'', [1])] 1000 2000,
        QueryFuncCall 3 [(''C'', [1])] 1000 2000]"
  by (simp add: run_defs fetch_defs upt_rec word_sless_alt)

subsection \<open>The chunk limit\<close>

text \<open>
  Claim C3. The comparison of the chunk limit is made on \<^verbatim>\<open>int32\<close>:
  \<^verbatim>\<open>actual > int32(leftChunksLimit)\<close>. A request of one tenant to one store-gateway that
  streams one series with one chunk: with the limit 2147483647 the request returns
  the series; with the limit 2147483648, which the conversion turns into -2147483648,
  the same request fails with the chunk limit error although one chunk does not exceed
  the limit.
\<close>

theorem chunk_limit_int32_truncation:
  "fst (selectSorted ((example_querier [''A''] [\<lparr>ID = 1, CompactorShardID = []\<rparr>] 0)
            \<lparr>limits_MaxChunksPerQuery := (\<lambda>uid. 2147483647)\<rparr>)
         example_env (\<lambda>n. []) \<lparr>Start = 1000, End = 2000, Func = []\<rparr> ''up'' ())
     = Inr ([[\<lparr>PromLabels = [(''job'', ''api'')], Chunks = [100]\<rparr>]], []) \<and>
   fst (selectSorted ((example_querier [''A''] [\<lparr>ID = 1, CompactorShardID = []\<rparr>] 0)
            \<lparr>limits_MaxChunksPerQuery := (\<lambda>uid. 2147483648)\<rparr>)
         example_env (\<lambda>n. []) \<lparr>Start = 1000, End = 2000, Func = []\<rparr> ''up'' ())
     = Inl (MaxChunksLimitError 2147483648)"
  by (simp add: run_defs fetch_defs upt_rec word_sless_alt)

end
